theory Spec2Isabelle
  imports Main "HOL-Library.Word" "HOL-Library.Signed_Division"
begin

section \<open>datareposrc: the data of the element and of its surroundings\<close>

text \<open>
  The development follows \<^verbatim>\<open>gst/datarepo/gstdatareposrc.c\<close>. The element's fields are
  a record, and every C function is a HOL function that takes the record (and the world
  outside the element) and returns them updated. The struct and \<^verbatim>\<open>MAX_ITEM\<close> are
  declared in the header \<^verbatim>\<open>gstdatareposrc.h\<close>; the field types below are the ones the
  C file's uses of the fields ask for: \<^verbatim>\<open>guint\<close> sizes, a 64-bit offset, and
  \<^verbatim>\<open>gint\<close> for \<^verbatim>\<open>frame_index\<close> and the two other indices (the index is the
  argument of the \<^verbatim>\<open>%d\<close> conversion of the location). \<^verbatim>\<open>MAX_ITEM\<close> is the length
  of the list \<open>tensors_size\<close>, whatever it is.

  A \<^verbatim>\<open>gint\<close> is a word of 32 bits read in two's complement (\<open>sint\<close>). C leaves
  the overflow of \<^verbatim>\<open>src->frame_index++\<close> at 2147483647 undefined; the model takes what
  the machine does there, the wrap-around to -2147483648.
\<close>

type_synonym byte = "8 word"
type_synonym guint = "32 word"
type_synonym guint64 = "64 word"
type_synonym gint = "32 word"

datatype media_type =
  NNS_VIDEO | NNS_AUDIO | NNS_TEXT | NNS_OCTET | NNS_TENSOR | NNS_IMAGE
  | NNS_MEDIA_ANY | NNS_MEDIA_INVALID

datatype gst_state =
  GST_STATE_VOID_PENDING | GST_STATE_NULL | GST_STATE_READY | GST_STATE_PAUSED
  | GST_STATE_PLAYING

datatype gst_flow_return = GST_FLOW_OK | GST_FLOW_EOS | GST_FLOW_ERROR

record gst_data_repo_src =
  element_state :: gst_state
  filename :: "string option"
  fd :: int
  media_type :: media_type
  media_size :: guint
  tensors_size :: "guint list"
  offset :: guint64
  read_position :: guint64
  successful_read :: bool
  frame_index :: gint
  start_frame_index :: gint
  stop_frame_index :: gint

text \<open>
  A \<^verbatim>\<open>GstMemory\<close> block is its allocated size and the bytes that were written into it,
  from its start; the rest of the block, if any, was never written. A \<^verbatim>\<open>GstBuffer\<close>
  is the list of its memory blocks.
\<close>

record gst_memory =
  mem_size :: nat
  mem_data :: "byte list"

type_synonym gst_buffer = "gst_memory list"

subsection \<open>The world outside the element\<close>

datatype errno =
  EAGAIN | EINTR | ENOENT | EACCES | EBADF | EIO | EISDIR | EFAULT | ENXIO | EMFILE

datatype file_kind = Regular | Directory | Socket | Fifo | Char_device | Block_device

record fs_file =
  file_stat :: "errno + file_kind"
  file_data :: "byte list"

datatype element_error = RESOURCE_NOT_FOUND | RESOURCE_OPEN_READ | RESOURCE_READ

datatype call =
  Call_open "string option" | Call_fstat int | Call_close int | Call_read int nat
  | Call_get_contents "string option" | Post_error element_error

text \<open>
  What one \<^verbatim>\<open>read\<close> does is for the kernel to decide: it may fail (with
  \<^verbatim>\<open>EINTR\<close>, \<^verbatim>\<open>EAGAIN\<close> or for good) or hand out fewer bytes than asked for.
  \<open>w_sched\<close> lists what the coming calls do; once the list is used up, every call gives
  all the bytes there are, up to the number asked for. So the kernel interrupts a reader
  finitely often only: a series of \<^verbatim>\<open>EINTR\<close> without end, on which the C loop would
  spin for ever, is not a behaviour of this world, and the loop below always ends.
\<close>

datatype read_event = Read_fails errno | Read_short nat

record world =
  w_files :: "string \<Rightarrow> errno + fs_file"
  w_fds :: "int \<Rightarrow> fs_file option"
  w_fd_limit :: nat
  w_sched :: "read_event list"
  w_map_ok :: bool
  w_log :: "call list"

definition logged :: "call \<Rightarrow> world \<Rightarrow> world" where
  "logged c w = w\<lparr>w_log := w_log w @ [c]\<rparr>"

text \<open>
  \<^verbatim>\<open>g_open (path, O_RDONLY)\<close>: \<open>Inl e\<close> is the return value -1 with \<^verbatim>\<open>errno\<close> e.
  \<open>w_files\<close> says what the path resolves to. A socket cannot be opened
  (\<^verbatim>\<open>ENXIO\<close>); any other file gets the lowest descriptor that is free, below the
  limit of the process (\<^verbatim>\<open>EMFILE\<close> when there is none). The call comes back: on
  a FIFO \<^verbatim>\<open>open\<close> waits until a writer has opened it too, and in this world that
  writer comes, as the kernel of this world interrupts a read finitely often only. A FIFO
  that nobody ever opens for writing, on which the call would wait for ever, is not a file
  of this world.
\<close>

definition lowest_free :: "world \<Rightarrow> int option" where
  "lowest_free w = find (\<lambda>d. w_fds w d = None) (map int [0..<w_fd_limit w])"

definition g_open :: "world \<Rightarrow> string option \<Rightarrow> (errno + int) \<times> world" where
  "g_open w path =
     (let w1 = logged (Call_open path) w in
      case path of
        None \<Rightarrow> (Inl EFAULT, w1)
      | Some p \<Rightarrow>
          (case w_files w p of
             Inl e \<Rightarrow> (Inl e, w1)
           | Inr f \<Rightarrow>
               if file_stat f = Inr Socket then (Inl ENXIO, w1)
               else
                 (case lowest_free w of
                    None \<Rightarrow> (Inl EMFILE, w1)
                  | Some d \<Rightarrow> (Inr d, w1\<lparr>w_fds := (w_fds w)(d \<mapsto> f)\<rparr>))))"

definition sys_fstat :: "world \<Rightarrow> int \<Rightarrow> (errno + file_kind) \<times> world" where
  "sys_fstat w d =
     (case w_fds w d of
        None \<Rightarrow> (Inl EBADF, logged (Call_fstat d) w)
      | Some f \<Rightarrow> (file_stat f, logged (Call_fstat d) w))"

definition g_close :: "world \<Rightarrow> int \<Rightarrow> world" where
  "g_close w d = logged (Call_close d) (w\<lparr>w_fds := (w_fds w)(d := None)\<rparr>)"

definition hand_out :: "world \<Rightarrow> int \<Rightarrow> fs_file \<Rightarrow> nat \<Rightarrow> (errno + byte list) \<times> world" where
  "hand_out w d f k =
     (Inr (take k (file_data f)),
      w\<lparr>w_fds := (w_fds w)(d \<mapsto> f\<lparr>file_data := drop k (file_data f)\<rparr>)\<rparr>)"

text \<open>
  \<^verbatim>\<open>read (fd, buf, n)\<close>: \<open>Inl e\<close> is the return value -1 with \<^verbatim>\<open>errno\<close> e,
  \<open>Inr bs\<close> the return value \<open>length bs\<close> with \<open>bs\<close> written to the buffer. The open
  file keeps the bytes that were not read yet.
\<close>

definition sys_read :: "world \<Rightarrow> int \<Rightarrow> nat \<Rightarrow> (errno + byte list) \<times> world" where
  "sys_read w d n =
     (let w1 = logged (Call_read d n) w in
      case w_fds w d of
        None \<Rightarrow> (Inl EBADF, w1)
      | Some f \<Rightarrow>
          (case w_sched w of
             [] \<Rightarrow> hand_out w1 d f n
           | ev # evs \<Rightarrow>
               (case ev of
                  Read_fails e \<Rightarrow> (Inl e, w1\<lparr>w_sched := evs\<rparr>)
                | Read_short k \<Rightarrow> hand_out (w1\<lparr>w_sched := evs\<rparr>) d f (min n (Suc k)))))"

text \<open>
  \<^verbatim>\<open>g_file_get_contents\<close>: the whole contents of the file of that name, or failure (no
  such file, a directory, a socket, no name at all).
\<close>

definition g_file_get_contents :: "world \<Rightarrow> string option \<Rightarrow> byte list option \<times> world" where
  "g_file_get_contents w path =
     (let w1 = logged (Call_get_contents path) w in
      case path of
        None \<Rightarrow> (None, w1)
      | Some p \<Rightarrow>
          (case w_files w p of
             Inl e \<Rightarrow> (None, w1)
           | Inr f \<Rightarrow>
               (case file_stat f of
                  Inl e \<Rightarrow> (None, w1)
                | Inr k \<Rightarrow>
                    if k = Directory \<or> k = Socket then (None, w1)
                    else (Some (file_data f), w1))))"

section \<open>The read loop\<close>

text \<open>
  The loop \<^verbatim>\<open>while (to_read > 0) { ret = read (...); ... }\<close> stands twice in the C file,
  word for word: in \<^verbatim>\<open>gst_data_repo_src_read_tensors\<close> and in
  \<^verbatim>\<open>gst_data_repo_src_read_others\<close>. \<open>data\<close> is what was written to the block so
  far, so \<^verbatim>\<open>byte_read\<close> is its length. The loop is left at its end or by
  \<^verbatim>\<open>break\<close> (\<open>Loop_end\<close>), by \<^verbatim>\<open>goto eos\<close> or by
  \<^verbatim>\<open>goto could_not_read\<close>.
\<close>

datatype loop_exit = Loop_end | Goto_eos | Goto_could_not_read

lemma sys_read_retry:
  assumes "sys_read w d n = (Inl e, w')" and "e = EAGAIN \<or> e = EINTR"
  shows "length (w_sched w') < length (w_sched w)"
  using assms
  by (auto simp: sys_read_def hand_out_def logged_def Let_def
           split: option.splits list.splits read_event.splits)

lemma sys_read_chunk:
  assumes "sys_read w d n = (Inr chunk, w')"
  shows "length chunk \<le> n \<and> length (w_sched w') \<le> length (w_sched w)"
  using assms
  by (auto simp: sys_read_def hand_out_def logged_def Let_def
           split: option.splits list.splits read_event.splits)

function read_loop ::
  "nat \<Rightarrow> byte list \<Rightarrow> gst_data_repo_src \<Rightarrow> world
     \<Rightarrow> loop_exit \<times> byte list \<times> gst_data_repo_src \<times> world" where
  "read_loop to_read data src w =
     (if to_read = 0 then (Loop_end, data, src, w)
      else
        (case sys_read w (fd src) to_read of
           (Inl e, w') \<Rightarrow>
             if e = EAGAIN \<or> e = EINTR then read_loop to_read data src w'
             else (Goto_could_not_read, data, src, w')
         | (Inr chunk, w') \<Rightarrow>
             if chunk = [] then
               (if data \<noteq> [] then (Loop_end, data, src, w') else (Goto_eos, data, src, w'))
             else
               read_loop (to_read - length chunk) (data @ chunk)
                 (src\<lparr>read_position := read_position src + of_nat (length chunk),
                      offset := offset src + of_nat (length chunk)\<rparr>) w'))"
  by pat_completeness auto
termination
proof (relation "measure (\<lambda>(to_read, data, src, w). length (w_sched w) + to_read)")
  show "wf (measure (\<lambda>(to_read, data, src, w). length (w_sched w) + to_read))"
    by simp
next
  fix to_read :: nat and data :: "byte list" and src :: gst_data_repo_src and w w' :: world
    and r :: "errno + byte list" and e :: errno
  assume "(r, w') = sys_read w (fd src) to_read" "r = Inl e" "e = EAGAIN \<or> e = EINTR"
  then have "length (w_sched w') < length (w_sched w)"
    using sys_read_retry [of w "fd src" to_read e w'] by simp
  then show "((to_read, data, src, w'), (to_read, data, src, w))
      \<in> measure (\<lambda>(to_read, data, src, w). length (w_sched w) + to_read)"
    by simp
next
  fix to_read :: nat and data :: "byte list" and src :: gst_data_repo_src and w w' :: world
    and r :: "errno + byte list" and chunk :: "byte list"
  assume "to_read \<noteq> 0" "(r, w') = sys_read w (fd src) to_read" "r = Inr chunk"
    "chunk \<noteq> []"
  then have "length chunk \<le> to_read \<and> length (w_sched w') \<le> length (w_sched w)"
    and "chunk \<noteq> []"
    using sys_read_chunk [of w "fd src" to_read chunk w'] by simp_all
  then show "((to_read - length chunk, data @ chunk,
       src\<lparr>read_position := read_position src + of_nat (length chunk),
           offset := offset src + of_nat (length chunk)\<rparr>, w'), (to_read, data, src, w))
      \<in> measure (\<lambda>(to_read, data, src, w). length (w_sched w) + to_read)"
    by (cases chunk) auto
qed

declare read_loop.simps [simp del]

section \<open>Reading one buffer\<close>

subsection \<open>Video, audio, text and octet streams\<close>

text \<open>
  \<^verbatim>\<open>gst_data_repo_src_read_others\<close>: one block of \<open>media_size\<close> bytes is allocated and
  the loop fills it. Leaving the loop by \<^verbatim>\<open>break\<close> (nothing more to read, after at
  least one byte) goes on like leaving it at its end: the block is put in a buffer and
  \<^verbatim>\<open>GST_FLOW_OK\<close> is returned.
\<close>

definition gst_data_repo_src_read_others ::
  "gst_data_repo_src \<Rightarrow> world
     \<Rightarrow> gst_flow_return \<times> gst_buffer option \<times> gst_data_repo_src \<times> world" where
  "gst_data_repo_src_read_others src w =
     (if \<not> w_map_ok w then (GST_FLOW_ERROR, None, src, w)
      else
        (case read_loop (unat (media_size src)) [] src w of
           (Loop_end, data, src', w') \<Rightarrow>
             (GST_FLOW_OK, Some [\<lparr>mem_size = unat (media_size src), mem_data = data\<rparr>], src', w')
         | (Goto_could_not_read, data, src', w') \<Rightarrow>
             (GST_FLOW_ERROR, None, src', logged (Post_error RESOURCE_READ) w')
         | (Goto_eos, data, src', w') \<Rightarrow> (GST_FLOW_EOS, None, src', w')))"

subsection \<open>Tensors\<close>

text \<open>
  An access to \<^verbatim>\<open>tensors_size[i]\<close> with \<open>i\<close> not below \<^verbatim>\<open>MAX_ITEM\<close> is outside
  the array; C gives it no meaning, and the model stops there with \<open>None\<close>.
\<close>

definition array_get :: "'a list \<Rightarrow> nat \<Rightarrow> 'a option" where
  "array_get xs i = (if i < length xs then Some (xs ! i) else None)"

definition array_set :: "'a list \<Rightarrow> nat \<Rightarrow> 'a \<Rightarrow> 'a list option" where
  "array_set xs i v = (if i < length xs then Some (xs[i := v]) else None)"

text \<open>
  \<^verbatim>\<open>gst_data_repo_src_read_tensors\<close>, from the loop variable \<open>i\<close> and the buffer built
  so far on: \<^verbatim>\<open>for (i = 0; i < 2; i++)\<close> allocates a block of \<^verbatim>\<open>tensors_size[i]\<close>
  bytes, fills it with the read loop and appends it to the buffer.
\<close>

function read_tensors_from ::
  "nat \<Rightarrow> gst_buffer \<Rightarrow> gst_data_repo_src \<Rightarrow> world
     \<Rightarrow> (gst_flow_return \<times> gst_buffer option \<times> gst_data_repo_src \<times> world) option" where
  "read_tensors_from i buf src w =
     (if i < 2 then
        (case array_get (tensors_size src) i of
           None \<Rightarrow> None
         | Some sz \<Rightarrow>
             if \<not> w_map_ok w then Some (GST_FLOW_ERROR, None, src, w)
             else
               (case read_loop (unat sz) [] src w of
                  (Loop_end, data, src', w') \<Rightarrow>
                    read_tensors_from (Suc i) (buf @ [\<lparr>mem_size = unat sz, mem_data = data\<rparr>])
                      src' w'
                | (Goto_could_not_read, data, src', w') \<Rightarrow>
                    Some (GST_FLOW_ERROR, None, src', logged (Post_error RESOURCE_READ) w')
                | (Goto_eos, data, src', w') \<Rightarrow> Some (GST_FLOW_EOS, None, src', w')))
      else Some (GST_FLOW_OK, Some buf, src, w))"
  by pat_completeness auto
termination
  by (relation "measure (\<lambda>(i, buf, src, w). 2 - i)") auto

declare read_tensors_from.simps [simp del]

definition gst_data_repo_src_read_tensors ::
  "gst_data_repo_src \<Rightarrow> world
     \<Rightarrow> (gst_flow_return \<times> gst_buffer option \<times> gst_data_repo_src \<times> world) option" where
  "gst_data_repo_src_read_tensors src w = read_tensors_from 0 [] src w"

subsection \<open>Numbered image files\<close>

text \<open>
  \<^verbatim>\<open>g_strdup_printf (pattern, frame_index)\<close>, for the patterns the element is meant
  for: text with conversions \<^verbatim>\<open>%d\<close>, \<^verbatim>\<open>%i\<close>, \<^verbatim>\<open>%u\<close>, with an optional
  \<^verbatim>\<open>0\<close> flag, width and \<^verbatim>\<open>l\<close>, and \<^verbatim>\<open>%%\<close>; \<^verbatim>\<open>%u\<close> prints the 32 bits of
  the index as an unsigned number. Any other conversion is left in the result as it stands.
\<close>

function dec_digits :: "nat \<Rightarrow> string" where
  "dec_digits n =
     (if n < 10 then [''0123456789'' ! n]
      else dec_digits (n div 10) @ [''0123456789'' ! (n mod 10)])"
  by pat_completeness auto
termination
  by (relation "measure (\<lambda>n. n)") auto

declare dec_digits.simps [simp del]

definition print_int :: "bool \<Rightarrow> nat \<Rightarrow> int \<Rightarrow> string" where
  "print_int zero width n =
     (let sign = (if n < 0 then ''-'' else []);
          ds = dec_digits (nat \<bar>n\<bar>);
          fill = width - (length sign + length ds)
      in if zero then sign @ replicate fill CHR ''0'' @ ds
         else replicate fill CHR '' '' @ sign @ ds)"

datatype printf_state = Text | Conversion bool bool nat

definition is_dec_digit :: "char \<Rightarrow> bool" where
  "is_dec_digit c = (c \<in> set ''0123456789'')"

definition printf_step :: "printf_state \<Rightarrow> char \<Rightarrow> int \<Rightarrow> string \<times> printf_state" where
  "printf_step st c n =
     (case st of
        Text \<Rightarrow> if c = CHR ''%'' then ([], Conversion True False 0) else ([c], Text)
      | Conversion fresh zero width \<Rightarrow>
          if c = CHR ''%'' \<and> fresh then ([c], Text)
          else if c = CHR ''0'' \<and> fresh then ([], Conversion False True 0)
          else if is_dec_digit c then ([], Conversion False zero (10 * width + (of_char c - 48)))
          else if c = CHR ''l'' then ([], Conversion False zero width)
          else if c = CHR ''d'' \<or> c = CHR ''i'' then (print_int zero width n, Text)
          else if c = CHR ''u'' then (print_int zero width (n mod 4294967296), Text)
          else ([c], Text))"

fun printf_from :: "printf_state \<Rightarrow> string \<Rightarrow> int \<Rightarrow> string" where
  "printf_from st [] n = []"
| "printf_from st (c # cs) n = (case printf_step st c n of (out, st') \<Rightarrow> out @ printf_from st' cs n)"

definition g_strdup_printf :: "string \<Rightarrow> int \<Rightarrow> string" where
  "g_strdup_printf pattern n = printf_from Text pattern n"

text \<open>
  \<^verbatim>\<open>gst_data_repo_src_get_image_filename\<close>; \<open>None\<close> is \<^verbatim>\<open>NULL\<close>.
\<close>

definition gst_data_repo_src_get_image_filename :: "gst_data_repo_src \<Rightarrow> string option" where
  "gst_data_repo_src_get_image_filename src =
     (if media_type src \<noteq> NNS_IMAGE then None
      else map_option (\<lambda>pattern. g_strdup_printf pattern (sint (frame_index src)))
             (filename src))"

definition gst_data_repo_src_read_multi_images ::
  "gst_data_repo_src \<Rightarrow> world
     \<Rightarrow> gst_flow_return \<times> gst_buffer option \<times> gst_data_repo_src \<times> world" where
  "gst_data_repo_src_read_multi_images src w =
     (case g_file_get_contents w (gst_data_repo_src_get_image_filename src) of
        (None, w') \<Rightarrow>
          if successful_read src then (GST_FLOW_EOS, None, src, w')
          else (GST_FLOW_ERROR, None, src, logged (Post_error RESOURCE_READ) w')
      | (Some data, w') \<Rightarrow>
          (GST_FLOW_OK, Some [\<lparr>mem_size = length data, mem_data = data\<rparr>],
           src\<lparr>successful_read := True, frame_index := frame_index src + 1\<rparr>, w'))"

subsection \<open>Dispatch on the media type\<close>

definition gst_data_repo_src_create ::
  "gst_data_repo_src \<Rightarrow> world
     \<Rightarrow> (gst_flow_return \<times> gst_buffer option \<times> gst_data_repo_src \<times> world) option" where
  "gst_data_repo_src_create src w =
     (case media_type src of
        NNS_TENSOR \<Rightarrow> gst_data_repo_src_read_tensors src w
      | NNS_IMAGE \<Rightarrow> Some (gst_data_repo_src_read_multi_images src w)
      | NNS_VIDEO \<Rightarrow> Some (gst_data_repo_src_read_others src w)
      | NNS_AUDIO \<Rightarrow> Some (gst_data_repo_src_read_others src w)
      | NNS_TEXT \<Rightarrow> Some (gst_data_repo_src_read_others src w)
      | NNS_OCTET \<Rightarrow> Some (gst_data_repo_src_read_others src w)
      | _ \<Rightarrow> Some (GST_FLOW_ERROR, None, src, w))"

text \<open>
  The calls of \<^verbatim>\<open>create\<close> that the streaming thread makes one after the other. Between
  two calls the world may change (files appear and disappear): each call comes with what
  the world does before it.
\<close>

fun creates ::
  "(world \<Rightarrow> world) list \<Rightarrow> gst_data_repo_src \<Rightarrow> world
     \<Rightarrow> ((gst_flow_return \<times> gst_buffer option) list \<times> gst_data_repo_src \<times> world) option" where
  "creates [] src w = Some ([], src, w)"
| "creates (ev # evs) src w =
     (case gst_data_repo_src_create src (ev w) of
        None \<Rightarrow> None
      | Some (ret, buf, src', w') \<Rightarrow>
          (case creates evs src' w' of
             None \<Rightarrow> None
           | Some (rets, src'', w'') \<Rightarrow> Some ((ret, buf) # rets, src'', w'')))"

section \<open>The life of the element\<close>

text \<open>
  \<^verbatim>\<open>gst_data_repo_src_init\<close> sets eight fields; the others keep what the allocation of
  the instance gave them.
\<close>

definition gst_data_repo_src_init :: "gst_data_repo_src \<Rightarrow> gst_data_repo_src" where
  "gst_data_repo_src_init src =
     src\<lparr>filename := None, fd := 0, media_type := NNS_TENSOR, offset := 0,
         successful_read := False, frame_index := 0, start_frame_index := 0,
         stop_frame_index := 0\<rparr>"

datatype gst_uri_error = GST_URI_ERROR_BAD_STATE

text \<open>
  \<^verbatim>\<open>gst_data_repo_src_set_location\<close>: \<open>want_err\<close> says that the caller passed a place
  for the error (\<^verbatim>\<open>err != NULL\<close>); the result is the return value, the error stored
  there, and the element.
\<close>

definition gst_data_repo_src_set_location ::
  "gst_data_repo_src \<Rightarrow> string option \<Rightarrow> bool
     \<Rightarrow> bool \<times> gst_uri_error option \<times> gst_data_repo_src" where
  "gst_data_repo_src_set_location src location want_err =
     (if element_state src \<noteq> GST_STATE_READY \<and> element_state src \<noteq> GST_STATE_NULL then
        (False, if want_err then Some GST_URI_ERROR_BAD_STATE else None, src)
      else
        (case location of
           None \<Rightarrow> (True, None, src\<lparr>filename := None\<rparr>)
         | Some l \<Rightarrow> (True, None, src\<lparr>filename := Some l\<rparr>)))"

text \<open>The label \<^verbatim>\<open>error_close\<close> of \<^verbatim>\<open>gst_data_repo_src_start\<close>.\<close>

definition error_close ::
  "gst_data_repo_src \<Rightarrow> world \<Rightarrow> bool \<times> gst_data_repo_src \<times> world" where
  "error_close src w = (False, src\<lparr>fd := 0\<rparr>, g_close w (fd src))"

definition gst_data_repo_src_start ::
  "gst_data_repo_src \<Rightarrow> world \<Rightarrow> bool \<times> gst_data_repo_src \<times> world" where
  "gst_data_repo_src_start src w =
     (if filename src = None \<or> filename src = Some [] then
        (False, src, logged (Post_error RESOURCE_NOT_FOUND) w)
      else
        (let src1 = src\<lparr>frame_index := start_frame_index src\<rparr>;
             name = (if media_type src1 = NNS_IMAGE
                     then gst_data_repo_src_get_image_filename src1 else filename src1)
         in case g_open w name of
              (r, w1) \<Rightarrow>
                (let src2 = src1\<lparr>fd := (case r of Inl e \<Rightarrow> - 1 | Inr d \<Rightarrow> d)\<rparr> in
                 if fd src2 < 0 then
                   (False, src2,
                    logged (Post_error (if r = Inl ENOENT then RESOURCE_NOT_FOUND
                                        else RESOURCE_OPEN_READ)) w1)
                 else
                   (case sys_fstat w1 (fd src2) of
                      (Inl e, w2) \<Rightarrow>
                        error_close src2 (logged (Post_error RESOURCE_OPEN_READ) w2)
                    | (Inr k, w2) \<Rightarrow>
                        if k = Directory then
                          error_close src2 (logged (Post_error RESOURCE_OPEN_READ) w2)
                        else if k = Socket then
                          error_close src2 (logged (Post_error RESOURCE_OPEN_READ) w2)
                        else if k \<noteq> Regular then error_close src2 w2
                        else
                          (let src3 = src2\<lparr>read_position := 0\<rparr> in
                           if media_type src3 = NNS_IMAGE then
                             (True, src3\<lparr>fd := 0\<rparr>, g_close w2 (fd src3))
                           else (True, src3, w2))))))"

definition gst_data_repo_src_stop ::
  "gst_data_repo_src \<Rightarrow> world \<Rightarrow> bool \<times> gst_data_repo_src \<times> world" where
  "gst_data_repo_src_stop src w = (True, src\<lparr>fd := 0\<rparr>, g_close w (fd src))"

section \<open>The negotiated format\<close>

text \<open>
  Of the caps the element reads the name of the first structure and what the GStreamer
  and NNStreamer helpers make of it. Those helpers are not part of the file, so their
  results are part of the caps here: \<open>caps_tensors\<close> is \<open>None\<close> when
  \<^verbatim>\<open>gst_tensors_config_from_structure\<close> fails and otherwise lists, tensor by tensor, the
  size that \<^verbatim>\<open>gst_tensor_info_get_size\<close> returns (so its length is
  \<^verbatim>\<open>num_tensors\<close>); \<open>caps_video_size\<close> is \<^verbatim>\<open>GST_VIDEO_INFO_SIZE\<close>.
\<close>

record gst_caps =
  caps_name :: string
  caps_tensors :: "nat list option"
  caps_video_size :: nat
  caps_audio_rate :: int
  caps_audio_channels :: int
  caps_audio_depth :: int

text \<open>
  The loop of \<^verbatim>\<open>gst_data_repo_src_get_tensors_size\<close>, from index \<open>i\<close> on, over the
  sizes of the tensors that are left.
\<close>

fun tensors_size_from ::
  "nat \<Rightarrow> nat list \<Rightarrow> guint \<Rightarrow> gst_data_repo_src \<Rightarrow> (guint \<times> gst_data_repo_src) option" where
  "tensors_size_from i [] sum_size src = Some (sum_size, src)"
| "tensors_size_from i (s # ss) sum_size src =
     (case array_set (tensors_size src) i (of_nat s) of
        None \<Rightarrow> None
      | Some ts \<Rightarrow> tensors_size_from (Suc i) ss (sum_size + ts ! i) (src\<lparr>tensors_size := ts\<rparr>))"

definition gst_data_repo_src_get_tensors_size ::
  "gst_data_repo_src \<Rightarrow> gst_caps \<Rightarrow> (guint \<times> gst_data_repo_src) option" where
  "gst_data_repo_src_get_tensors_size src caps =
     (case caps_tensors caps of
        None \<Rightarrow> Some (0, src)
      | Some infos \<Rightarrow> tensors_size_from 0 infos 0 src)"

definition gst_data_repo_src_get_video_size :: "gst_caps \<Rightarrow> guint" where
  "gst_data_repo_src_get_video_size caps = of_nat (caps_video_size caps)"

definition gst_data_repo_src_get_audio_size :: "gst_caps \<Rightarrow> guint" where
  "gst_data_repo_src_get_audio_size caps =
     of_int (caps_audio_channels caps * (caps_audio_depth caps sdiv 8) * caps_audio_rate caps)"

text \<open>The end of \<^verbatim>\<open>gst_data_repo_src_get_media_info\<close>, from the test of the size on.\<close>

definition media_info_size :: "guint \<Rightarrow> gst_data_repo_src \<Rightarrow> bool \<times> gst_data_repo_src" where
  "media_info_size sum_size src =
     (if sum_size = 0 then (False, src) else (True, src\<lparr>media_size := sum_size\<rparr>))"

definition gst_data_repo_src_get_media_info ::
  "gst_data_repo_src \<Rightarrow> gst_caps \<Rightarrow> (bool \<times> gst_data_repo_src) option" where
  "gst_data_repo_src_get_media_info src caps =
     (if caps_name caps = ''other/tensors'' then
        (case gst_data_repo_src_get_tensors_size src caps of
           None \<Rightarrow> None
         | Some (sum_size, src') \<Rightarrow> Some (media_info_size sum_size (src'\<lparr>media_type := NNS_TENSOR\<rparr>)))
      else if caps_name caps = ''video/x-raw'' then
        Some (media_info_size (gst_data_repo_src_get_video_size caps)
                (src\<lparr>media_type := NNS_VIDEO\<rparr>))
      else if caps_name caps = ''audio/x-raw'' then
        Some (media_info_size (gst_data_repo_src_get_audio_size caps)
                (src\<lparr>media_type := NNS_AUDIO\<rparr>))
      else if caps_name caps = ''text/x-raw'' then
        Some (media_info_size 0 (src\<lparr>media_type := NNS_TEXT\<rparr>))
      else if caps_name caps = ''application/octet-stream'' then
        Some (media_info_size 3176 (src\<lparr>media_type := NNS_OCTET\<rparr>))
      else if caps_name caps = ''image/png'' \<or> caps_name caps = ''image/jpeg''
              \<or> caps_name caps = ''image/tiff'' \<or> caps_name caps = ''image/gif'' then
        Some (media_info_size (4 * 1024) (src\<lparr>media_type := NNS_IMAGE\<rparr>))
      else Some (False, src))"

definition gst_data_repo_src_set_caps ::
  "gst_data_repo_src \<Rightarrow> gst_caps \<Rightarrow> (bool \<times> gst_data_repo_src) option" where
  "gst_data_repo_src_set_caps src caps = gst_data_repo_src_get_media_info src caps"

section \<open>Sample values\<close>

text \<open>
  An instance as the object system hands it to \<^verbatim>\<open>gst_data_repo_src_init\<close> (zero-filled,
  in state \<^verbatim>\<open>NULL\<close>, here with sixteen entries of \<open>tensors_size\<close>), and a world
  with no files, the three standard streams open on a terminal, room for eight
  descriptors, and reads that are never cut short.
\<close>

definition sample_instance :: gst_data_repo_src where
  "sample_instance =
     \<lparr>element_state = GST_STATE_NULL, filename = None, fd = 0, media_type = NNS_VIDEO,
      media_size = 0, tensors_size = replicate 16 0, offset = 0, read_position = 0,
      successful_read = False, frame_index = 0, start_frame_index = 0, stop_frame_index = 0\<rparr>"

definition terminal :: fs_file where
  "terminal = \<lparr>file_stat = Inr Char_device, file_data = []\<rparr>"

definition sample_world :: world where
  "sample_world =
     \<lparr>w_files = (\<lambda>p. Inl ENOENT),
      w_fds = [0 \<mapsto> terminal, 1 \<mapsto> terminal, 2 \<mapsto> terminal],
      w_fd_limit = 8, w_sched = [], w_map_ok = True, w_log = []\<rparr>"

definition regular_file :: "byte list \<Rightarrow> fs_file" where
  "regular_file bs = \<lparr>file_stat = Inr Regular, file_data = bs\<rparr>"

definition with_file :: "string \<Rightarrow> fs_file \<Rightarrow> world \<Rightarrow> world" where
  "with_file p f w = w\<lparr>w_files := (w_files w)(p := Inr f)\<rparr>"

definition without_file :: "string \<Rightarrow> world \<Rightarrow> world" where
  "without_file p w = w\<lparr>w_files := (w_files w)(p := Inl ENOENT)\<rparr>"

text \<open>
  The calls that bring a fresh instance to streaming, in the order in which the base class
  makes them: init, the location property, start, and the caps once they are negotiated.
\<close>

definition sample_stream ::
  "string \<Rightarrow> gst_caps \<Rightarrow> world \<Rightarrow> (gst_data_repo_src \<times> world) option" where
  "sample_stream location caps w =
     (case gst_data_repo_src_set_location (gst_data_repo_src_init sample_instance)
             (Some location) False of
        (ok1, err, src1) \<Rightarrow>
          (case gst_data_repo_src_start src1 w of
             (ok2, src2, w') \<Rightarrow>
               (case gst_data_repo_src_set_caps src2 caps of
                  None \<Rightarrow> None
                | Some (ok3, src3) \<Rightarrow> if ok1 \<and> ok2 \<and> ok3 then Some (src3, w') else None)))"

definition video_caps :: "nat \<Rightarrow> gst_caps" where
  "video_caps n =
     \<lparr>caps_name = ''video/x-raw'', caps_tensors = None, caps_video_size = n,
      caps_audio_rate = 0, caps_audio_channels = 0, caps_audio_depth = 0\<rparr>"

text \<open>
  A video element with frames of four bytes, started on a file of six bytes.
\<close>

definition sample_video_src :: gst_data_repo_src where
  "sample_video_src =
     sample_instance\<lparr>fd := 3, media_type := NNS_VIDEO, media_size := 4,
       filename := Some ''video.raw''\<rparr>"

definition sample_video_world :: world where
  "sample_video_world =
     sample_world
       \<lparr>w_files := (\<lambda>p. Inl ENOENT)(''video.raw'' := Inr (regular_file [1, 2, 3, 4, 5, 6])),
        w_fds := (w_fds sample_world)(3 \<mapsto> regular_file [1, 2, 3, 4, 5, 6]),
        w_log := [Call_open (Some ''video.raw''), Call_fstat 3]\<rparr>"

text \<open>
  The same world with a kernel that interrupts the first read, hands out a single byte at
  the second and asks to try again at the third.
\<close>

definition sample_video_world_cut :: world where
  "sample_video_world_cut =
     sample_video_world\<lparr>w_sched := [Read_fails EINTR, Read_short 0, Read_fails EAGAIN]\<rparr>"

text \<open>Caps \<^verbatim>\<open>other/tensors\<close> whose tensors have the given sizes.\<close>

definition tensors_caps :: "nat list \<Rightarrow> gst_caps" where
  "tensors_caps szs =
     \<lparr>caps_name = ''other/tensors'', caps_tensors = Some szs, caps_video_size = 0,
      caps_audio_rate = 0, caps_audio_channels = 0, caps_audio_depth = 0\<rparr>"

text \<open>
  A tensor element with two tensors of four and two bytes, started on a file with the
  given bytes.
\<close>

definition sample_tensor_src :: gst_data_repo_src where
  "sample_tensor_src =
     sample_instance\<lparr>fd := 3, media_type := NNS_TENSOR, media_size := 6,
       tensors_size := [4, 2] @ replicate 14 0, filename := Some ''mnist.dat''\<rparr>"

definition sample_tensor_world :: "byte list \<Rightarrow> world" where
  "sample_tensor_world bs =
     sample_world
       \<lparr>w_files := (\<lambda>p. Inl ENOENT)(''mnist.dat'' := Inr (regular_file bs)),
        w_fds := (w_fds sample_world)(3 \<mapsto> regular_file bs),
        w_log := [Call_open (Some ''mnist.dat''), Call_fstat 3]\<rparr>"

text \<open>
  An image element whose caps were negotiated, with the location
  \<^verbatim>\<open>img%04d.png\<close>, and a world with the eleven files \<^verbatim>\<open>img0000.png\<close> to
  \<^verbatim>\<open>img0010.png\<close>.
\<close>

definition sample_image_src :: gst_data_repo_src where
  "sample_image_src =
     (gst_data_repo_src_init sample_instance)
       \<lparr>filename := Some ''img%04d.png'', media_type := NNS_IMAGE, media_size := 4096\<rparr>"

definition sample_image_world :: world where
  "sample_image_world =
     sample_world
       \<lparr>w_files := (\<lambda>p. if p \<in> set [''img0000.png'', ''img0001.png'', ''img0002.png'',
                                      ''img0003.png'', ''img0004.png'', ''img0005.png'',
                                      ''img0006.png'', ''img0007.png'', ''img0008.png'',
                                      ''img0009.png'', ''img0010.png'']
                       then Inr (regular_file [137, 80, 78, 71]) else Inl ENOENT)\<rparr>"

text \<open>
  An image element whose location has no conversion, so that every call reads the same
  file \<^verbatim>\<open>frame.png\<close>, and a world with that file.
\<close>

definition still_image_src :: gst_data_repo_src where
  "still_image_src = sample_image_src\<lparr>filename := Some ''frame.png''\<rparr>"

definition still_image_world :: world where
  "still_image_world = with_file ''frame.png'' (regular_file [137, 80, 78, 71]) sample_world"

section \<open>Notions for stating the properties\<close>

text \<open>
  The kernel cuts reads short or interrupts them but does not fail for good: every failure
  in the schedule is \<^verbatim>\<open>EAGAIN\<close> or \<^verbatim>\<open>EINTR\<close>.
\<close>

definition no_read_fault :: "read_event list \<Rightarrow> bool" where
  "no_read_fault sched =
     list_all (\<lambda>ev. case ev of Read_fails e \<Rightarrow> e = EAGAIN \<or> e = EINTR | Read_short k \<Rightarrow> True) sched"

text \<open>
  \<open>same_setup src src'\<close>: the two elements differ at most in \<open>read_position\<close> and
  \<open>offset\<close>. \<open>same_files w w'\<close>: the two worlds have the same files, allocator and
  limit of descriptors.
\<close>

definition same_setup :: "gst_data_repo_src \<Rightarrow> gst_data_repo_src \<Rightarrow> bool" where
  "same_setup src src' =
     (src' = src\<lparr>read_position := read_position src', offset := offset src'\<rparr>)"

definition same_files :: "world \<Rightarrow> world \<Rightarrow> bool" where
  "same_files w w' =
     (w_files w' = w_files w \<and> w_map_ok w' = w_map_ok w \<and> w_fd_limit w' = w_fd_limit w)"

text \<open>The media types that \<^verbatim>\<open>create\<close> hands to \<^verbatim>\<open>gst_data_repo_src_read_others\<close>.\<close>

definition fixed_size_kind :: "media_type \<Rightarrow> bool" where
  "fixed_size_kind t = (t = NNS_VIDEO \<or> t = NNS_AUDIO \<or> t = NNS_TEXT \<or> t = NNS_OCTET)"

text \<open>
  What the \<open>k\<close>-th call (from 0) returns for a file \<open>bs\<close> read in records of \<open>S\<close>
  bytes, as the lemmas below establish: a block of \<open>S\<close> bytes holding what the file has
  from position \<open>k * S\<close> on, as long as there is at least one byte there.
\<close>

definition record_at :: "nat \<Rightarrow> byte list \<Rightarrow> nat \<Rightarrow> gst_flow_return \<times> gst_buffer option" where
  "record_at S bs k =
     (if k * S < length bs
      then (GST_FLOW_OK, Some [\<lparr>mem_size = S, mem_data = take S (drop (k * S) bs)\<rparr>])
      else (GST_FLOW_EOS, None))"

text \<open>The return values and buffers of a run of calls.\<close>

definition create_results ::
  "(world \<Rightarrow> world) list \<Rightarrow> gst_data_repo_src \<Rightarrow> world
     \<Rightarrow> (gst_flow_return \<times> gst_buffer option) list option" where
  "create_results evs src w = map_option fst (creates evs src w)"

text \<open>What a call hands back to its caller: the return value and the buffer.\<close>

definition returned ::
  "(gst_flow_return \<times> gst_buffer option \<times> gst_data_repo_src \<times> world) option
     \<Rightarrow> (gst_flow_return \<times> gst_buffer option) option" where
  "returned res = map_option (\<lambda>(ret, buf, src', w'). (ret, buf)) res"


section \<open>Runs of calls\<close>

text \<open>
  What the base class and the world do to an element over its life: it is started, asked
  for buffers and stopped, and in between the files may change. \<open>run\<close> makes the calls
  in order and collects what the calls of \<^verbatim>\<open>create\<close> returned.
\<close>

datatype op = Op_start | Op_create | Op_stop | Op_world "world \<Rightarrow> world"

fun run ::
  "op list \<Rightarrow> gst_data_repo_src \<Rightarrow> world
     \<Rightarrow> (gst_flow_return list \<times> gst_data_repo_src \<times> world) option" where
  "run [] src w = Some ([], src, w)"
| "run (Op_start # ops) src w =
     (case gst_data_repo_src_start src w of (ok, src', w') \<Rightarrow> run ops src' w')"
| "run (Op_create # ops) src w =
     (case gst_data_repo_src_create src w of
        None \<Rightarrow> None
      | Some (ret, buf, src', w') \<Rightarrow>
          (case run ops src' w' of
             None \<Rightarrow> None
           | Some (rets, src'', w'') \<Rightarrow> Some (ret # rets, src'', w'')))"
| "run (Op_stop # ops) src w =
     (case gst_data_repo_src_stop src w of (ok, src', w') \<Rightarrow> run ops src' w')"
| "run (Op_world ev # ops) src w = run ops src (ev w)"


section \<open>Evaluation of the samples\<close>

lemma descriptors_8: "map int [0..<8] = [0, 1, 2, 3, 4, 5, 6, 7]"
  by (simp add: upt_rec)

lemmas open_defs = g_open_def lowest_free_def descriptors_8 terminal_def

lemmas sample_defs =
  sample_stream_def sample_instance_def sample_world_def regular_file_def with_file_def
  without_file_def video_caps_def
  gst_data_repo_src_init_def gst_data_repo_src_set_location_def gst_data_repo_src_start_def
  error_close_def gst_data_repo_src_stop_def
  gst_data_repo_src_set_caps_def gst_data_repo_src_get_media_info_def media_info_size_def
  gst_data_repo_src_get_video_size_def
  open_defs sys_fstat_def g_close_def logged_def Let_def

lemmas read_defs =
  gst_data_repo_src_create_def gst_data_repo_src_read_others_def read_loop.simps
  sys_read_def hand_out_def logged_def Let_def

lemma sample_video_stream:
  "sample_stream ''video.raw'' (video_caps 4)
     (with_file ''video.raw'' (regular_file [1, 2, 3, 4, 5, 6]) sample_world) =
   Some (sample_instance\<lparr>fd := 3, media_type := NNS_VIDEO, media_size := 4,
           filename := Some ''video.raw''\<rparr>,
         sample_video_world)"
  by (simp add: sample_defs sample_video_world_def)

section \<open>The read loop when no read fails for good\<close>

text \<open>
  With every failure of \<^verbatim>\<open>read\<close> a retry, the loop returns the next \<open>n\<close> bytes of
  the file, or as many as there are, however the kernel cuts the reads; it leaves by
  \<^verbatim>\<open>goto eos\<close> exactly when it was asked for at least one byte and got none.
\<close>

lemma same_setup_refl: "same_setup src src"
  by (simp add: same_setup_def)

lemma same_setup_trans: "same_setup a b \<Longrightarrow> same_setup b c \<Longrightarrow> same_setup a c"
  unfolding same_setup_def
  by (metis (no_types, lifting) gst_data_repo_src.surjective gst_data_repo_src.update_convs(7,8))

lemma same_setup_step:
  "same_setup (src\<lparr>read_position := p, offset := q\<rparr>) src' \<Longrightarrow> same_setup src src'"
  unfolding same_setup_def by (cases src, cases src') simp

lemma same_setup_fields:
  assumes "same_setup src src'"
  shows "fd src' = fd src" "media_size src' = media_size src" "media_type src' = media_type src"
    "tensors_size src' = tensors_size src" "successful_read src' = successful_read src"
    "frame_index src' = frame_index src" "filename src' = filename src"
  using assms unfolding same_setup_def by (cases src, cases src', simp)+

lemma take_min_length: "take (min k (length xs)) xs = take k xs"
  by (cases "k \<le> length xs") (simp_all add: min_def)

lemma drop_min_length: "drop (min k (length xs)) xs = drop k xs"
  by (cases "k \<le> length xs") (simp_all add: min_def)

lemma hand_out_chunk:
  assumes "hand_out w d f m = (r, w')"
  shows "\<exists>k\<le>m. k \<le> length (file_data f) \<and> r = Inr (take k (file_data f)) \<and>
           w_fds w' d = Some (f\<lparr>file_data := drop k (file_data f)\<rparr>) \<and>
           (0 < m \<and> file_data f \<noteq> [] \<longrightarrow> 0 < k)"
proof (intro exI [of _ "min m (length (file_data f))"] conjI)
  show "r = Inr (take (min m (length (file_data f))) (file_data f))"
    using assms by (auto simp: hand_out_def take_min_length)
  show "w_fds w' d = Some (f\<lparr>file_data := drop (min m (length (file_data f))) (file_data f)\<rparr>)"
    using assms by (auto simp: hand_out_def drop_min_length)
qed auto

lemma hand_out_world:
  assumes "hand_out w d f m = (r, w')"
  shows "w_sched w' = w_sched w \<and> same_files w w'"
  using assms by (auto simp: hand_out_def same_files_def)

lemma sys_read_quiet:
  assumes "w_fds w d = Some f" and "no_read_fault (w_sched w)" and "sys_read w d n = (r, w')"
  shows "no_read_fault (w_sched w') \<and> same_files w w' \<and>
     (case r of
        Inl e \<Rightarrow> (e = EAGAIN \<or> e = EINTR) \<and> w_fds w' d = Some f
      | Inr chunk \<Rightarrow>
          (\<exists>k\<le>n. k \<le> length (file_data f) \<and> chunk = take k (file_data f) \<and>
             w_fds w' d = Some (f\<lparr>file_data := drop k (file_data f)\<rparr>) \<and>
             (0 < n \<and> file_data f \<noteq> [] \<longrightarrow> 0 < k)))"
proof (cases "w_sched w")
  case Nil
  with assms have h: "hand_out (logged (Call_read d n) w) d f n = (r, w')"
    by (simp add: sys_read_def)
  from hand_out_chunk [OF h] hand_out_world [OF h] assms(2) show ?thesis
    by (auto simp: logged_def same_files_def)
next
  case (Cons ev evs)
  show ?thesis
  proof (cases ev)
    case (Read_fails e)
    with Cons assms show ?thesis
      by (auto simp: sys_read_def logged_def same_files_def no_read_fault_def)
  next
    case (Read_short j)
    with Cons assms
    have h: "hand_out (logged (Call_read d n) w\<lparr>w_sched := evs\<rparr>) d f (min n (Suc j)) = (r, w')"
      by (simp add: sys_read_def)
    from assms(2) Cons have q: "no_read_fault evs" by (simp add: no_read_fault_def)
    from hand_out_chunk [OF h] obtain k where k: "k \<le> min n (Suc j)" "k \<le> length (file_data f)"
      "r = Inr (take k (file_data f))"
      "w_fds w' d = Some (f\<lparr>file_data := drop k (file_data f)\<rparr>)"
      "0 < min n (Suc j) \<and> file_data f \<noteq> [] \<longrightarrow> 0 < k" by blast
    then have "k \<le> n" "0 < n \<and> file_data f \<noteq> [] \<longrightarrow> 0 < k" by auto
    with k hand_out_world [OF h] q show ?thesis
      by (auto simp: logged_def same_files_def)
  qed
qed

lemma read_loop_quiet:
  assumes "w_fds w (fd src) = Some f" and "no_read_fault (w_sched w)"
  shows "\<exists>src' w'.
     read_loop n data src w =
       (if 0 < n \<and> data = [] \<and> file_data f = [] then Goto_eos else Loop_end,
        data @ take n (file_data f), src', w') \<and>
     same_setup src src' \<and> same_files w w' \<and> no_read_fault (w_sched w') \<and>
     w_fds w' (fd src) = Some (f\<lparr>file_data := drop n (file_data f)\<rparr>)"
  using assms
proof (induction n data src w arbitrary: f rule: read_loop.induct)
  case (1 to_read data src w)
  show ?case
  proof (cases "to_read = 0")
    case True
    with "1.prems" show ?thesis
      by (simp add: read_loop.simps same_setup_refl same_files_def)
  next
    case False
    obtain r w1 where rd: "sys_read w (fd src) to_read = (r, w1)"
      by (cases "sys_read w (fd src) to_read")
    from sys_read_quiet [OF "1.prems" rd]
    have q1: "no_read_fault (w_sched w1)" and f1: "same_files w w1"
      and shape: "case r of
          Inl e \<Rightarrow> (e = EAGAIN \<or> e = EINTR) \<and> w_fds w1 (fd src) = Some f
        | Inr chunk \<Rightarrow>
            (\<exists>k\<le>to_read. k \<le> length (file_data f) \<and> chunk = take k (file_data f) \<and>
               w_fds w1 (fd src) = Some (f\<lparr>file_data := drop k (file_data f)\<rparr>) \<and>
               (0 < to_read \<and> file_data f \<noteq> [] \<longrightarrow> 0 < k))"
      by simp_all
    show ?thesis
    proof (cases r)
      case (Inl e)
      with shape have retry: "e = EAGAIN \<or> e = EINTR" and fds1: "w_fds w1 (fd src) = Some f"
        by simp_all
      from "1.IH"(1) [OF False rd [symmetric] Inl retry fds1 q1]
      obtain src' w' where
        "read_loop to_read data src w1 =
           (if 0 < to_read \<and> data = [] \<and> file_data f = [] then Goto_eos else Loop_end,
            data @ take to_read (file_data f), src', w')"
        "same_setup src src'" "same_files w1 w'" "no_read_fault (w_sched w')"
        "w_fds w' (fd src) = Some (f\<lparr>file_data := drop to_read (file_data f)\<rparr>)"
        by blast
      moreover have "read_loop to_read data src w = read_loop to_read data src w1"
        using False rd Inl retry by (subst read_loop.simps) auto
      ultimately show ?thesis using f1 by (auto simp: same_files_def)
    next
      case (Inr chunk)
      with shape obtain k where k: "k \<le> to_read" "k \<le> length (file_data f)"
        "chunk = take k (file_data f)"
        "w_fds w1 (fd src) = Some (f\<lparr>file_data := drop k (file_data f)\<rparr>)"
        "0 < to_read \<and> file_data f \<noteq> [] \<longrightarrow> 0 < k"
        by auto
      show ?thesis
      proof (cases "chunk = []")
        case True
        with k False have empty: "file_data f = []" by auto
        have "read_loop to_read data src w =
            (if data \<noteq> [] then Loop_end else Goto_eos, data, src, w1)"
          using False rd Inr True by (subst read_loop.simps) auto
        with empty k q1 f1 False show ?thesis
          by (auto simp: same_setup_refl)
      next
        case nonempty: False
        let ?src1 = "src\<lparr>read_position := read_position src + of_nat (length chunk),
                         offset := offset src + of_nat (length chunk)\<rparr>"
        let ?f1 = "f\<lparr>file_data := drop k (file_data f)\<rparr>"
        have len: "length chunk = k" using k by simp
        have fds1: "w_fds w1 (fd ?src1) = Some ?f1" using k by simp
        from "1.IH"(2) [OF False rd [symmetric] Inr nonempty fds1 q1]
        obtain src' w' where rec:
          "read_loop (to_read - length chunk) (data @ chunk) ?src1 w1 =
             (if 0 < to_read - length chunk \<and> data @ chunk = [] \<and> file_data ?f1 = []
              then Goto_eos else Loop_end,
              (data @ chunk) @ take (to_read - length chunk) (file_data ?f1), src', w')"
          "same_setup ?src1 src'" "same_files w1 w'" "no_read_fault (w_sched w')"
          "w_fds w' (fd ?src1) = Some (?f1\<lparr>file_data := drop (to_read - length chunk) (file_data ?f1)\<rparr>)"
          by blast
        have unfold: "read_loop to_read data src w =
            read_loop (to_read - length chunk) (data @ chunk) ?src1 w1"
          using False rd Inr nonempty by (subst read_loop.simps) auto
        have data: "chunk @ take (to_read - length chunk) (file_data ?f1) = take to_read (file_data f)"
          using k len by (simp add: take_add [symmetric] del: take_add)
        have rest: "drop (to_read - length chunk) (file_data ?f1) = drop to_read (file_data f)"
          using k len by simp
        from nonempty k have "file_data f \<noteq> []" by auto
        with rec unfold data rest nonempty f1 same_setup_step [OF rec(2)] show ?thesis
          by (auto simp: same_files_def)
      qed
    qed
  qed
qed

lemma read_others_quiet:
  assumes "w_map_ok w" and "w_fds w (fd src) = Some f" and "no_read_fault (w_sched w)"
    and "0 < unat (media_size src)"
  shows "\<exists>src' w'.
     gst_data_repo_src_read_others src w =
       (if file_data f = [] then (GST_FLOW_EOS, None, src', w')
        else (GST_FLOW_OK,
              Some [\<lparr>mem_size = unat (media_size src),
                     mem_data = take (unat (media_size src)) (file_data f)\<rparr>], src', w')) \<and>
     same_setup src src' \<and> same_files w w' \<and> no_read_fault (w_sched w') \<and>
     w_fds w' (fd src) = Some (f\<lparr>file_data := drop (unat (media_size src)) (file_data f)\<rparr>)"
proof -
  from read_loop_quiet [OF assms(2,3), of "unat (media_size src)" "[]"]
  obtain src' w' where
    "read_loop (unat (media_size src)) [] src w =
       (if 0 < unat (media_size src) \<and> [] = ([] :: byte list) \<and> file_data f = []
        then Goto_eos else Loop_end,
        [] @ take (unat (media_size src)) (file_data f), src', w')"
    "same_setup src src'" "same_files w w'" "no_read_fault (w_sched w')"
    "w_fds w' (fd src) = Some (f\<lparr>file_data := drop (unat (media_size src)) (file_data f)\<rparr>)"
    by blast
  with assms(1,4) show ?thesis
    by (auto simp: gst_data_repo_src_read_others_def)
qed

lemma create_fixed_size:
  "fixed_size_kind (media_type src) \<Longrightarrow>
     gst_data_repo_src_create src w = Some (gst_data_repo_src_read_others src w)"
  by (auto simp: fixed_size_kind_def gst_data_repo_src_create_def)

lemma record_at_drop: "record_at S (drop S bs) k = record_at S bs (Suc k)"
  by (auto simp: record_at_def add.commute)

lemma creates_fixed_size:
  assumes "fixed_size_kind (media_type src)" and "unat (media_size src) = S" and "0 < S"
    and "w_fds w (fd src) = Some f" and "file_data f = bs"
    and "w_map_ok w" and "no_read_fault (w_sched w)"
  shows "create_results (replicate n id) src w = Some (map (record_at S bs) [0..<n])"
  using assms unfolding create_results_def
proof (induction n arbitrary: src w f bs)
  case 0
  show ?case by simp
next
  case (Suc n)
  from read_others_quiet [of w src f] Suc.prems
  obtain src' w' where step:
    "gst_data_repo_src_read_others src w =
       (if bs = [] then (GST_FLOW_EOS, None, src', w')
        else (GST_FLOW_OK, Some [\<lparr>mem_size = S, mem_data = take S bs\<rparr>], src', w'))"
    "same_setup src src'" "same_files w w'" "no_read_fault (w_sched w')"
    "w_fds w' (fd src) = Some (f\<lparr>file_data := drop S bs\<rparr>)"
    by auto
  have first: "gst_data_repo_src_read_others src w = (fst (record_at S bs 0), snd (record_at S bs 0), src', w')"
    using step(1) by (simp add: record_at_def)
  from same_setup_fields [OF step(2)] Suc.prems step
  have "map_option fst (creates (replicate n id) src' w') = Some (map (record_at S (drop S bs)) [0..<n])"
    by (intro Suc.IH [where f = "f\<lparr>file_data := drop S bs\<rparr>"]) (simp_all add: same_files_def)
  then obtain rest where rest: "creates (replicate n id) src' w' = Some rest"
    "fst rest = map (record_at S (drop S bs)) [0..<n]"
    by (cases "creates (replicate n id) src' w'") auto
  show ?case
    using Suc.prems(1) first rest
    by (cases rest) (simp add: create_fixed_size map_upt_Suc record_at_drop id_def del: upt_Suc)
qed

lemma record_at_full:
  assumes "k < length bs div S"
  shows "record_at S bs k =
    (GST_FLOW_OK, Some [\<lparr>mem_size = S, mem_data = take S (drop (k * S) bs)\<rparr>])"
    and "length (take S (drop (k * S) bs)) = S"
proof -
  from assms have "Suc k * S \<le> (length bs div S) * S" by (intro mult_le_mono1) simp
  also have "\<dots> \<le> length bs" by simp
  finally have le: "k * S + S \<le> length bs" by simp
  moreover from assms have "0 < S" by (cases "S = 0") simp_all
  ultimately have "k * S < length bs" by linarith
  then show "record_at S bs k =
      (GST_FLOW_OK, Some [\<lparr>mem_size = S, mem_data = take S (drop (k * S) bs)\<rparr>])"
    by (simp add: record_at_def)
  from le show "length (take S (drop (k * S) bs)) = S" by simp
qed

lemma record_at_last:
  assumes "length bs mod S \<noteq> 0" and "0 < S"
  shows "record_at S bs (length bs div S) =
    (GST_FLOW_OK, Some [\<lparr>mem_size = S, mem_data = drop (length bs div S * S) bs\<rparr>])"
    and "length (drop (length bs div S * S) bs) = length bs mod S"
    and "record_at S bs (Suc (length bs div S)) = (GST_FLOW_EOS, None)"
proof -
  let ?q = "length bs div S"
  have split: "length bs = ?q * S + length bs mod S" by simp
  show len: "length (drop (?q * S) bs) = length bs mod S"
    by (simp add: minus_div_mult_eq_mod)
  from assms split have "?q * S < length bs" by linarith
  moreover have "take S (drop (?q * S) bs) = drop (?q * S) bs"
    using len assms(2) by (intro take_all) (simp del: length_drop)
  ultimately show "record_at S bs ?q =
      (GST_FLOW_OK, Some [\<lparr>mem_size = S, mem_data = drop (?q * S) bs\<rparr>])"
    by (simp add: record_at_def)
  have "length bs mod S < S" using assms(2) by simp
  with split have "\<not> S + ?q * S < length bs" by linarith
  then show "record_at S bs (Suc ?q) = (GST_FLOW_EOS, None)"
    by (simp add: record_at_def)
qed

section \<open>Reading tensors when no read fails for good\<close>


lemma read_tensors_unfold:
  assumes "array_get (tensors_size src) 0 = Some z0" and "w_map_ok w"
    and "read_loop (unat z0) [] src w = (Loop_end, d0, src1, w1)"
    and "array_get (tensors_size src1) 1 = Some z1" and "w_map_ok w1"
    and "read_loop (unat z1) [] src1 w1 = (ex, d1, src2, w2)"
  shows "gst_data_repo_src_read_tensors src w =
     (case ex of
        Loop_end \<Rightarrow>
          Some (GST_FLOW_OK,
                Some [\<lparr>mem_size = unat z0, mem_data = d0\<rparr>, \<lparr>mem_size = unat z1, mem_data = d1\<rparr>],
                src2, w2)
      | Goto_could_not_read \<Rightarrow>
          Some (GST_FLOW_ERROR, None, src2, logged (Post_error RESOURCE_READ) w2)
      | Goto_eos \<Rightarrow> Some (GST_FLOW_EOS, None, src2, w2))"
proof -
  have "gst_data_repo_src_read_tensors src w =
      read_tensors_from (Suc 0) [\<lparr>mem_size = unat z0, mem_data = d0\<rparr>] src1 w1"
    unfolding gst_data_repo_src_read_tensors_def
    using assms(1-3) by (subst read_tensors_from.simps) simp
  also have "\<dots> =
     (case ex of
        Loop_end \<Rightarrow>
          read_tensors_from (Suc (Suc 0))
            [\<lparr>mem_size = unat z0, mem_data = d0\<rparr>, \<lparr>mem_size = unat z1, mem_data = d1\<rparr>] src2 w2
      | Goto_could_not_read \<Rightarrow>
          Some (GST_FLOW_ERROR, None, src2, logged (Post_error RESOURCE_READ) w2)
      | Goto_eos \<Rightarrow> Some (GST_FLOW_EOS, None, src2, w2))"
    using assms(4-6) by (subst read_tensors_from.simps) (simp split: loop_exit.splits)
  also have "read_tensors_from (Suc (Suc 0))
            [\<lparr>mem_size = unat z0, mem_data = d0\<rparr>, \<lparr>mem_size = unat z1, mem_data = d1\<rparr>] src2 w2 =
      Some (GST_FLOW_OK,
                Some [\<lparr>mem_size = unat z0, mem_data = d0\<rparr>, \<lparr>mem_size = unat z1, mem_data = d1\<rparr>],
                src2, w2)"
    by (subst read_tensors_from.simps) simp
  finally show ?thesis .
qed

lemma read_tensors_quiet:
  assumes "2 \<le> length (tensors_size src)"
    and "unat (tensors_size src ! 0) = s0" and "unat (tensors_size src ! 1) = s1"
    and "w_fds w (fd src) = Some f" and "file_data f = bs"
    and "w_map_ok w" and "no_read_fault (w_sched w)"
  shows "\<exists>src' w'.
     gst_data_repo_src_read_tensors src w =
       Some (if (0 < s0 \<and> bs = []) \<or> (0 < s1 \<and> length bs \<le> s0)
             then (GST_FLOW_EOS, None, src', w')
             else (GST_FLOW_OK,
                   Some [\<lparr>mem_size = s0, mem_data = take s0 bs\<rparr>,
                         \<lparr>mem_size = s1, mem_data = take s1 (drop s0 bs)\<rparr>], src', w')) \<and>
     same_setup src src' \<and> same_files w w' \<and> no_read_fault (w_sched w') \<and>
     w_fds w' (fd src) = Some (f\<lparr>file_data := drop (s0 + s1) bs\<rparr>)"
proof -
  from assms(1) have get0: "array_get (tensors_size src) 0 = Some (tensors_size src ! 0)"
    and get1: "array_get (tensors_size src) 1 = Some (tensors_size src ! 1)"
    by (auto simp: array_get_def)
  from read_loop_quiet [OF assms(4,7), of s0 "[]"] assms(5)
  obtain src1 w1 where first:
    "read_loop s0 [] src w = (if 0 < s0 \<and> bs = [] then Goto_eos else Loop_end, take s0 bs, src1, w1)"
    "same_setup src src1" "same_files w w1" "no_read_fault (w_sched w1)"
    "w_fds w1 (fd src) = Some (f\<lparr>file_data := drop s0 bs\<rparr>)"
    by auto
  show ?thesis
  proof (cases "0 < s0 \<and> bs = []")
    case True
    with first(1) have "read_loop s0 [] src w = (Goto_eos, take s0 bs, src1, w1)" by simp
    then have "gst_data_repo_src_read_tensors src w = Some (GST_FLOW_EOS, None, src1, w1)"
      unfolding gst_data_repo_src_read_tensors_def
      using get0 assms(2,6) by (subst read_tensors_from.simps) simp
    with True first show ?thesis by auto
  next
    case False
    with first(1) have loop0: "read_loop (unat (tensors_size src ! 0)) [] src w = (Loop_end, take s0 bs, src1, w1)"
      using assms(2) by simp
    from same_setup_fields [OF first(2)] have keep: "fd src1 = fd src" "tensors_size src1 = tensors_size src"
      by simp_all
    from first(3) assms(6) have map1: "w_map_ok w1" by (simp add: same_files_def)
    from read_loop_quiet [of w1 src1 "f\<lparr>file_data := drop s0 bs\<rparr>" s1 "[]"] first(4,5) keep
    obtain src2 w2 where second:
      "read_loop s1 [] src1 w1 =
         (if 0 < s1 \<and> drop s0 bs = [] then Goto_eos else Loop_end, take s1 (drop s0 bs), src2, w2)"
      "same_setup src1 src2" "same_files w1 w2" "no_read_fault (w_sched w2)"
      "w_fds w2 (fd src) = Some (f\<lparr>file_data := drop (s0 + s1) bs\<rparr>)"
      by (auto simp: add.commute)
    from get1 keep have get1': "array_get (tensors_size src1) 1 = Some (tensors_size src ! 1)" by simp
    from second(1) assms(3)
    have loop1: "read_loop (unat (tensors_size src ! 1)) [] src1 w1 =
         (if 0 < s1 \<and> drop s0 bs = [] then Goto_eos else Loop_end, take s1 (drop s0 bs), src2, w2)"
      by simp
    have kept: "same_setup src src2" using first(2) second(2) by (rule same_setup_trans)
    have files: "same_files w w2" using first(3) second(3) by (simp add: same_files_def)
    from read_tensors_unfold [OF get0 assms(6) loop0 get1' map1 loop1] False assms(2,3)
      kept files second(4,5)
    show ?thesis by auto
  qed
qed

section \<open>Storing the sizes of the tensors\<close>

lemma tensors_size_from_ok:
  "i + length ss \<le> length (tensors_size src) \<Longrightarrow>
   tensors_size_from i ss acc src =
     Some (acc + of_nat (sum_list ss),
           src\<lparr>tensors_size :=
                 take i (tensors_size src) @ map of_nat ss @ drop (i + length ss) (tensors_size src)\<rparr>)"
proof (induction ss arbitrary: i acc src)
  case Nil
  then show ?case by simp
next
  case (Cons s ss)
  let ?ts = "(tensors_size src)[i := of_nat s]"
  from Cons.prems have i: "i < length (tensors_size src)" by simp
  then have set: "array_set (tensors_size src) i (of_nat s) = Some ?ts"
    by (simp add: array_set_def)
  have "Suc i + length ss \<le> length (tensors_size (src\<lparr>tensors_size := ?ts\<rparr>))"
    using Cons.prems by simp
  from Cons.IH [OF this, of "acc + ?ts ! i"]
  have "tensors_size_from (Suc i) ss (acc + ?ts ! i) (src\<lparr>tensors_size := ?ts\<rparr>) =
      Some (acc + ?ts ! i + of_nat (sum_list ss),
            src\<lparr>tensors_size := take (Suc i) ?ts @ map of_nat ss @ drop (Suc i + length ss) ?ts\<rparr>)"
    by simp
  moreover have "take (Suc i) ?ts = take i (tensors_size src) @ [of_nat s]"
    using i by (simp add: take_Suc_conv_app_nth)
  moreover have "drop (Suc i + length ss) ?ts = drop (i + length (s # ss)) (tensors_size src)"
    by simp
  moreover have "?ts ! i = of_nat s" using i by simp
  ultimately show ?case using set by simp
qed

lemma tensors_size_from_overrun:
  "i \<le> length (tensors_size src) \<Longrightarrow> length (tensors_size src) < i + length ss \<Longrightarrow>
   tensors_size_from i ss acc src = None"
proof (induction ss arbitrary: i acc src)
  case Nil
  then show ?case by simp
next
  case (Cons s ss)
  show ?case
  proof (cases "i < length (tensors_size src)")
    case True
    then have "array_set (tensors_size src) i (of_nat s) = Some ((tensors_size src)[i := of_nat s])"
      by (simp add: array_set_def)
    moreover have "tensors_size_from (Suc i) ss (acc + (tensors_size src)[i := of_nat s] ! i)
        (src\<lparr>tensors_size := (tensors_size src)[i := of_nat s]\<rparr>) = None"
      using True Cons.prems by (intro Cons.IH) simp_all
    ultimately show ?thesis by simp
  next
    case False
    then show ?thesis by (simp add: array_set_def)
  qed
qed

lemma get_media_info_tensors:
  assumes "caps_name caps = ''other/tensors''" and "caps_tensors caps = Some szs"
    and "length szs \<le> length (tensors_size src)"
  shows "gst_data_repo_src_get_media_info src caps =
     Some (media_info_size (of_nat (sum_list szs))
             (src\<lparr>tensors_size := map of_nat szs @ drop (length szs) (tensors_size src),
                  media_type := NNS_TENSOR\<rparr>))"
  using assms tensors_size_from_ok [of 0 szs src 0]
  by (simp add: gst_data_repo_src_get_media_info_def gst_data_repo_src_get_tensors_size_def)

lemma get_media_info_tensors_overrun:
  assumes "caps_name caps = ''other/tensors''" and "caps_tensors caps = Some szs"
    and "length (tensors_size src) < length szs"
  shows "gst_data_repo_src_get_media_info src caps = None"
  using assms tensors_size_from_overrun [of 0 src szs 0]
  by (simp add: gst_data_repo_src_get_media_info_def gst_data_repo_src_get_tensors_size_def)

lemma unat_of_nat_32: "n < 2 ^ 32 \<Longrightarrow> unat (of_nat n :: guint) = n"
  by (simp add: unat_of_nat take_bit_nat_eq_self)

lemma sum_list_bound: "s \<in> set (szs :: nat list) \<Longrightarrow> s \<le> sum_list szs"
  by (induction szs) auto

section \<open>Tensor streams: samples and shape of the buffer\<close>

lemmas tensor_defs =
  tensors_caps_def gst_data_repo_src_get_tensors_size_def array_set_def array_get_def
  gst_data_repo_src_read_tensors_def read_tensors_from.simps returned_def

lemma sample_tensors_set_caps:
  "length szs \<le> 16 \<Longrightarrow> tensors_size src = replicate 16 0 \<Longrightarrow>
   gst_data_repo_src_set_caps src (tensors_caps szs) =
     Some (media_info_size (of_nat (sum_list szs))
             (src\<lparr>tensors_size := map of_nat szs @ replicate (16 - length szs) 0,
                  media_type := NNS_TENSOR\<rparr>))"
  by (simp add: gst_data_repo_src_set_caps_def get_media_info_tensors tensors_caps_def)

lemma sample_tensor_stream:
  "sample_stream ''mnist.dat'' (tensors_caps [4, 2])
     (with_file ''mnist.dat'' (regular_file [1, 2, 3, 4, 5]) sample_world) =
   Some (sample_instance\<lparr>fd := 3, media_type := NNS_TENSOR, media_size := 6,
           tensors_size := [4, 2] @ replicate 14 0, filename := Some ''mnist.dat''\<rparr>,
         sample_tensor_world [1, 2, 3, 4, 5])"
  by (simp add: sample_stream_def sample_instance_def sample_world_def regular_file_def
        with_file_def gst_data_repo_src_init_def gst_data_repo_src_set_location_def
        gst_data_repo_src_start_def open_defs sys_fstat_def
        logged_def Let_def sample_tensors_set_caps media_info_size_def
        sample_tensor_world_def)


lemmas tensor_read_defs =
  sample_tensor_src_def sample_tensor_world_def sample_world_def
  sample_instance_def regular_file_def gst_data_repo_src_create_def
  tensor_defs read_loop.simps sys_read_def hand_out_def logged_def Let_def

lemma sample_tensor_facts:
  "media_type sample_tensor_src = NNS_TENSOR"
  "2 \<le> length (tensors_size sample_tensor_src)"
  "unat (tensors_size sample_tensor_src ! 0) = 4"
  "unat (tensors_size sample_tensor_src ! 1) = 2"
  "w_fds (sample_tensor_world bs) (fd sample_tensor_src) = Some (regular_file bs)"
  "file_data (regular_file bs) = bs"
  "w_map_ok (sample_tensor_world bs)"
  "no_read_fault (w_sched (sample_tensor_world bs))"
  by (simp_all add: sample_tensor_src_def sample_tensor_world_def sample_world_def
        sample_instance_def regular_file_def no_read_fault_def)

lemma create_tensor:
  "media_type src = NNS_TENSOR \<Longrightarrow>
     gst_data_repo_src_create src w = gst_data_repo_src_read_tensors src w"
  by (simp add: gst_data_repo_src_create_def)




section \<open>Image files: evaluation and what a call changes\<close>

lemma replicate_numeral: "replicate (numeral k) x = x # replicate (pred_numeral k) x"
  by (simp add: numeral_eq_Suc)

lemmas printf_defs =
  g_strdup_printf_def printf_step_def is_dec_digit_def print_int_def dec_digits.simps
  replicate_numeral

lemmas image_defs =
  gst_data_repo_src_read_multi_images_def gst_data_repo_src_get_image_filename_def
  g_file_get_contents_def gst_data_repo_src_create_def returned_def create_results_def

lemma img_names:
  "g_strdup_printf ''img%04d.png'' 0 = ''img0000.png''"
  "g_strdup_printf ''img%04d.png'' 1 = ''img0001.png''"
  "g_strdup_printf ''img%04d.png'' 2 = ''img0002.png''"
  "g_strdup_printf ''img%04d.png'' 3 = ''img0003.png''"
  "g_strdup_printf ''img%04d.png'' 4 = ''img0004.png''"
  "g_strdup_printf ''img%04d.png'' 5 = ''img0005.png''"
  "g_strdup_printf ''img%04d.png'' 6 = ''img0006.png''"
  "g_strdup_printf ''img%04d.png'' 7 = ''img0007.png''"
  "g_strdup_printf ''img%04d.png'' 8 = ''img0008.png''"
  "g_strdup_printf ''img%04d.png'' 9 = ''img0009.png''"
  "g_strdup_printf ''img%04d.png'' 10 = ''img0010.png''"
  "g_strdup_printf ''img%04d.png'' 11 = ''img0011.png''"
  by (simp_all add: printf_defs)

lemmas image_eval =
  image_defs sample_image_src_def sample_image_world_def without_file_def
  sample_world_def sample_instance_def gst_data_repo_src_init_def regular_file_def
  img_names logged_def Let_def

lemmas session_eval =
  image_eval gst_data_repo_src_start_def gst_data_repo_src_stop_def error_close_def
  open_defs sys_fstat_def g_close_def

lemma sample_image_start:
  "gst_data_repo_src_start (sample_image_src\<lparr>stop_frame_index := 2\<rparr>) sample_image_world =
     (True, sample_image_src\<lparr>stop_frame_index := 2\<rparr>,
      sample_image_world\<lparr>w_fds := (w_fds sample_image_world)(3 := None),
        w_log := [Call_open (Some ''img0000.png''), Call_fstat 3, Call_close 3]\<rparr>)"
  by (simp add: gst_data_repo_src_start_def sample_image_src_def sample_image_world_def
        sample_world_def sample_instance_def gst_data_repo_src_init_def regular_file_def
        gst_data_repo_src_get_image_filename_def img_names open_defs
        sys_fstat_def g_close_def logged_def Let_def)

lemma create_image:
  "media_type src = NNS_IMAGE \<Longrightarrow>
     gst_data_repo_src_create src w = Some (gst_data_repo_src_read_multi_images src w)"
  by (simp add: gst_data_repo_src_create_def)

lemma read_multi_images_cases:
  "gst_data_repo_src_read_multi_images src w =
     (case fst (g_file_get_contents w (gst_data_repo_src_get_image_filename src)) of
        None \<Rightarrow>
          (if successful_read src then GST_FLOW_EOS else GST_FLOW_ERROR, None, src,
           if successful_read src
           then snd (g_file_get_contents w (gst_data_repo_src_get_image_filename src))
           else logged (Post_error RESOURCE_READ)
                  (snd (g_file_get_contents w (gst_data_repo_src_get_image_filename src))))
      | Some data \<Rightarrow>
          (GST_FLOW_OK, Some [\<lparr>mem_size = length data, mem_data = data\<rparr>],
           src\<lparr>successful_read := True, frame_index := frame_index src + 1\<rparr>,
           snd (g_file_get_contents w (gst_data_repo_src_get_image_filename src))))"
  by (cases "g_file_get_contents w (gst_data_repo_src_get_image_filename src)")
     (auto simp: gst_data_repo_src_read_multi_images_def split: option.splits)

lemma read_multi_images_fields:
  assumes "gst_data_repo_src_read_multi_images src w = (ret, buf, src', w')"
  shows "media_type src' = media_type src"
    and "successful_read src' = (successful_read src \<or> ret = GST_FLOW_OK)"
    and "frame_index src' = frame_index src + (if ret = GST_FLOW_OK then 1 else 0)"
  using assms
  by (auto simp: read_multi_images_cases split: option.splits if_splits)

lemma start_fields:
  assumes "gst_data_repo_src_start src w = (ok, src', w')"
  shows "media_type src' = media_type src" and "successful_read src' = successful_read src"
    and "filename src' = filename src"
  using assms
  by (auto simp: gst_data_repo_src_start_def error_close_def Let_def
           split: if_splits prod.splits sum.splits)

lemma stop_fields:
  assumes "gst_data_repo_src_stop src w = (ok, src', w')"
  shows "media_type src' = media_type src" and "successful_read src' = successful_read src"
    and "filename src' = filename src"
  using assms by (auto simp: gst_data_repo_src_stop_def)

lemma count_ok:
  "length (filter (\<lambda>r. fst r = GST_FLOW_OK) rets) =
   length (filter (\<lambda>x. x = GST_FLOW_OK) (map fst rets))"
  by (induction rets) auto

lemma read_multi_images_stop:
  "gst_data_repo_src_read_multi_images (src\<lparr>stop_frame_index := n\<rparr>) w =
     (case gst_data_repo_src_read_multi_images src w of
        (ret, buf, src', w') \<Rightarrow> (ret, buf, src'\<lparr>stop_frame_index := n\<rparr>, w'))"
  by (simp add: read_multi_images_cases gst_data_repo_src_get_image_filename_def
        split: option.splits)

lemma creates_stop:
  "media_type src = NNS_IMAGE \<Longrightarrow>
   creates evs (src\<lparr>stop_frame_index := n\<rparr>) w =
     map_option (\<lambda>(rets, src', w'). (rets, src'\<lparr>stop_frame_index := n\<rparr>, w'))
       (creates evs src w)"
proof (induction evs arbitrary: src w)
  case Nil
  show ?case by simp
next
  case (Cons ev evs)
  obtain ret buf src1 w1 where
    one: "gst_data_repo_src_read_multi_images src (ev w) = (ret, buf, src1, w1)"
    by (cases "gst_data_repo_src_read_multi_images src (ev w)") auto
  from read_multi_images_fields(1) [OF one] Cons.prems
  have k: "media_type src1 = NNS_IMAGE" by simp
  from Cons.prems have k': "media_type (src\<lparr>stop_frame_index := n\<rparr>) = NNS_IMAGE" by simp
  show ?case
    unfolding creates.simps create_image [OF Cons.prems] create_image [OF k']
      read_multi_images_stop one
    by (simp add: Cons.IH [OF k] split: option.splits)
qed

lemma run_image:
  assumes "media_type src = NNS_IMAGE" and "run ops src w = Some (rets, src', w')"
  shows "media_type src' = NNS_IMAGE \<and>
    successful_read src' = (successful_read src \<or> GST_FLOW_OK \<in> set rets)"
  using assms
proof (induction ops arbitrary: src w rets)
  case Nil
  then show ?case by simp
next
  case (Cons op ops)
  show ?case
  proof (cases op)
    case Op_start
    obtain ok src1 w1 where s: "gst_data_repo_src_start src w = (ok, src1, w1)"
      by (cases "gst_data_repo_src_start src w") auto
    with Cons.prems Op_start have "run ops src1 w1 = Some (rets, src', w')" by simp
    from Cons.IH [OF _ this] start_fields [OF s] Cons.prems(1) show ?thesis by simp
  next
    case Op_stop
    obtain ok src1 w1 where s: "gst_data_repo_src_stop src w = (ok, src1, w1)"
      by (cases "gst_data_repo_src_stop src w") auto
    with Cons.prems Op_stop have "run ops src1 w1 = Some (rets, src', w')" by simp
    from Cons.IH [OF _ this] stop_fields [OF s] Cons.prems(1) show ?thesis by simp
  next
    case (Op_world ev)
    with Cons.prems have "run ops src (ev w) = Some (rets, src', w')" by simp
    from Cons.IH [OF Cons.prems(1) this] show ?thesis .
  next
    case Op_create
    obtain ret buf src1 w1 where
      one: "gst_data_repo_src_read_multi_images src w = (ret, buf, src1, w1)"
      by (cases "gst_data_repo_src_read_multi_images src w") auto
    with Cons.prems Op_create obtain rest where
      rest: "run ops src1 w1 = Some (rest, src', w')" and rets: "rets = ret # rest"
      by (auto simp: create_image split: option.splits)
    from read_multi_images_fields [OF one] Cons.prems(1)
    have "media_type src1 = NNS_IMAGE"
      and "successful_read src1 = (successful_read src \<or> ret = GST_FLOW_OK)"
      by simp_all
    with Cons.IH [OF _ rest] rets show ?thesis by auto
  qed
qed

section \<open>The frame index as a machine integer\<close>

lemma sint_add_nat:
  assumes "sint (x :: 32 word) + int n \<le> 2147483647"
  shows "sint (x + of_nat n) = sint x + int n"
proof -
  have "x + of_nat n = word_of_int (sint x + int n)" by simp
  then have "sint (x + of_nat n) = signed_take_bit 31 (sint x + int n)"
    by (simp only: sint_sbintrunc') simp
  moreover have "- (2 ^ 31) \<le> sint x" using sint_ge [of x] by simp
  ultimately show ?thesis using assms by (simp add: signed_take_bit_int_eq_self)
qed

lemma creates_frame_index:
  assumes "media_type src = NNS_IMAGE" and "creates evs src w = Some (rets, src', w')"
  shows "frame_index src' =
      frame_index src + of_nat (length (filter (\<lambda>r. fst r = GST_FLOW_OK) rets))"
  using assms
proof (induction evs arbitrary: src w rets)
  case Nil
  then show ?case by simp
next
  case (Cons ev evs)
  obtain ret buf src1 w1 where
    one: "gst_data_repo_src_read_multi_images src (ev w) = (ret, buf, src1, w1)"
    by (cases "gst_data_repo_src_read_multi_images src (ev w)") auto
  with Cons.prems obtain rest where
    rest: "creates evs src1 w1 = Some (rest, src', w')" and rets: "rets = (ret, buf) # rest"
    by (auto simp: create_image split: option.splits)
  from read_multi_images_fields [OF one] Cons.prems(1)
  have "media_type src1 = NNS_IMAGE"
    and "frame_index src1 = frame_index src + (if ret = GST_FLOW_OK then 1 else 0)"
    by simp_all
  with Cons.IH [OF _ rest] rets show ?case by simp
qed

lemma constant_name:
  "g_strdup_printf ''frame.png'' n = ''frame.png''"
  by (simp add: g_strdup_printf_def printf_step_def)

lemma still_image_read:
  assumes "media_type src = NNS_IMAGE" and "filename src = Some ''frame.png''"
    and "w_files w ''frame.png'' = Inr (regular_file d)"
  shows "\<exists>w'. gst_data_repo_src_read_multi_images src w =
      (GST_FLOW_OK, Some [\<lparr>mem_size = length d, mem_data = d\<rparr>],
       src\<lparr>successful_read := True, frame_index := frame_index src + 1\<rparr>, w') \<and>
     w_files w' = w_files w"
  using assms
  by (simp add: gst_data_repo_src_read_multi_images_def gst_data_repo_src_get_image_filename_def
        constant_name g_file_get_contents_def regular_file_def logged_def Let_def)

lemma still_image_run:
  assumes "media_type src = NNS_IMAGE" and "filename src = Some ''frame.png''"
    and "w_files w ''frame.png'' = Inr (regular_file d)"
  shows "\<exists>rets src' w'. creates (replicate n id) src w = Some (rets, src', w') \<and>
     map fst rets = replicate n GST_FLOW_OK \<and>
     frame_index src' = frame_index src + of_nat n \<and>
     media_type src' = NNS_IMAGE \<and> filename src' = Some ''frame.png'' \<and>
     w_files w' ''frame.png'' = Inr (regular_file d)"
  using assms
proof (induction n arbitrary: src w)
  case 0
  then show ?case by simp
next
  case (Suc n)
  from still_image_read [OF Suc.prems] obtain w1 where
    one: "gst_data_repo_src_read_multi_images src w =
      (GST_FLOW_OK, Some [\<lparr>mem_size = length d, mem_data = d\<rparr>],
       src\<lparr>successful_read := True, frame_index := frame_index src + 1\<rparr>, w1)"
    and files: "w_files w1 = w_files w"
    by blast
  let ?src1 = "src\<lparr>successful_read := True, frame_index := frame_index src + 1\<rparr>"
  have "media_type ?src1 = NNS_IMAGE" "filename ?src1 = Some ''frame.png''"
    "w_files w1 ''frame.png'' = Inr (regular_file d)"
    using Suc.prems files by simp_all
  from Suc.IH [OF this] obtain rets src' w' where
    rest: "creates (replicate n id) ?src1 w1 = Some (rets, src', w')"
    and r: "map fst rets = replicate n GST_FLOW_OK"
      "frame_index src' = frame_index ?src1 + of_nat n"
      "media_type src' = NNS_IMAGE" "filename src' = Some ''frame.png''"
      "w_files w' ''frame.png'' = Inr (regular_file d)"
    by blast
  have step: "creates (replicate (Suc n) id) src w =
      Some ((GST_FLOW_OK, Some [\<lparr>mem_size = length d, mem_data = d\<rparr>]) # rets, src', w')"
    using one rest by (simp add: create_image [OF Suc.prems(1)])
  show ?case unfolding step using r by (simp add: add.assoc)
qed

lemma still_image_facts:
  "media_type still_image_src = NNS_IMAGE"
  "filename still_image_src = Some ''frame.png''"
  "frame_index still_image_src = 0"
  "w_files still_image_world ''frame.png'' = Inr (regular_file [137, 80, 78, 71])"
  by (simp_all add: still_image_src_def still_image_world_def sample_image_src_def
        gst_data_repo_src_init_def sample_instance_def with_file_def)


lemma still_image_start:
  "gst_data_repo_src_start still_image_src still_image_world =
     (True, still_image_src,
      still_image_world\<lparr>w_fds := (w_fds still_image_world)(3 := None),
        w_log := [Call_open (Some ''frame.png''), Call_fstat 3, Call_close 3]\<rparr>)"
  by (simp add: gst_data_repo_src_start_def still_image_src_def still_image_world_def
        sample_image_src_def gst_data_repo_src_init_def sample_instance_def sample_world_def
        with_file_def regular_file_def gst_data_repo_src_get_image_filename_def constant_name
        error_close_def open_defs sys_fstat_def g_close_def logged_def Let_def)

section \<open>What start does once it has a name\<close>



section \<open>Changing the location\<close>

text \<open>
  C9. \<^verbatim>\<open>gst_data_repo_src_set_location\<close> in any state other than \<^verbatim>\<open>READY\<close> and
  \<^verbatim>\<open>NULL\<close> returns \<^verbatim>\<open>FALSE\<close>, stores \<^verbatim>\<open>GST_URI_ERROR_BAD_STATE\<close> where the
  caller asked for the error, and leaves the element (so its file name) as it was; in
  \<^verbatim>\<open>READY\<close> and \<^verbatim>\<open>NULL\<close> it returns \<^verbatim>\<open>TRUE\<close> and the stored file name is the
  new location, all other fields unchanged.
\<close>

theorem set_location_only_when_stopped:
  "(element_state src \<noteq> GST_STATE_READY \<and> element_state src \<noteq> GST_STATE_NULL \<longrightarrow>
      gst_data_repo_src_set_location src location want_err =
        (False, if want_err then Some GST_URI_ERROR_BAD_STATE else None, src)) \<and>
   (element_state src = GST_STATE_READY \<or> element_state src = GST_STATE_NULL \<longrightarrow>
      gst_data_repo_src_set_location src location want_err =
        (True, None, src\<lparr>filename := location\<rparr>))"
  by (cases location) (simp_all add: gst_data_repo_src_set_location_def)

theorem set_location_only_when_stopped_witness:
  "element_state (sample_instance\<lparr>element_state := GST_STATE_PLAYING, filename := Some ''a.dat''\<rparr>)
     \<noteq> GST_STATE_READY \<and>
   element_state (sample_instance\<lparr>element_state := GST_STATE_PLAYING, filename := Some ''a.dat''\<rparr>)
     \<noteq> GST_STATE_NULL \<and>
   (case gst_data_repo_src_set_location
           (sample_instance\<lparr>element_state := GST_STATE_PLAYING, filename := Some ''a.dat''\<rparr>)
           (Some ''b.dat'') True of
      (ok, err, src') \<Rightarrow>
        \<not> ok \<and> err = Some GST_URI_ERROR_BAD_STATE \<and> filename src' = Some ''a.dat'') \<and>
   element_state sample_instance = GST_STATE_NULL \<and>
   (case gst_data_repo_src_set_location sample_instance (Some ''b.dat'') True of
      (ok, err, src') \<Rightarrow> ok \<and> err = None \<and> filename src' = Some ''b.dat'')"
  using set_location_only_when_stopped
    [of "sample_instance\<lparr>element_state := GST_STATE_PLAYING, filename := Some ''a.dat''\<rparr>"
        "Some ''b.dat''" True]
    set_location_only_when_stopped [of sample_instance "Some ''b.dat''" True]
  by (simp add: sample_instance_def)

section \<open>Fixed-size records: video, audio, text, octet\<close>

text \<open>
  C1, as the claim states it, fails. A video element with frames of four bytes reads a file
  of six bytes: the first call returns a full block, the second call returns
  \<^verbatim>\<open>GST_FLOW_OK\<close> again, with a block of four bytes of which only two were written,
  and only the third call returns \<^verbatim>\<open>GST_FLOW_EOS\<close>. The claim promises one buffer
  (the integer part of 6 / 4) and then end of stream.
\<close>

theorem read_others_partial_counterexample:
  "(case sample_stream ''video.raw'' (video_caps 4)
           (with_file ''video.raw'' (regular_file [1, 2, 3, 4, 5, 6]) sample_world) of
      None \<Rightarrow> None
    | Some (src, w) \<Rightarrow> create_results [id, id, id] src w) =
   Some [(GST_FLOW_OK, Some [\<lparr>mem_size = 4, mem_data = [1, 2, 3, 4]\<rparr>]),
         (GST_FLOW_OK, Some [\<lparr>mem_size = 4, mem_data = [5, 6]\<rparr>]),
         (GST_FLOW_EOS, None)]"
  by (simp add: sample_video_stream)
     (simp add: create_results_def sample_video_world_def sample_defs read_defs)

text \<open>
  C1, amended. For each of the media types video, audio, text and octet, with a record size
  \<open>S > 0\<close>, a file whose length is not a multiple of \<open>S\<close> and no read failing for
  good: the first \<open>length bs div S\<close> calls return \<^verbatim>\<open>GST_FLOW_OK\<close> with a block holding
  the \<open>S\<close> bytes of the record; one more call returns \<^verbatim>\<open>GST_FLOW_OK\<close> with a block
  of \<open>S\<close> bytes into which only the \<open>length bs mod S\<close> bytes left in the file were
  written; the call after that returns \<^verbatim>\<open>GST_FLOW_EOS\<close> and no buffer.
\<close>

theorem read_others_returns_partial_record:
  assumes "media_type src \<in> {NNS_VIDEO, NNS_AUDIO, NNS_TEXT, NNS_OCTET}"
    and "unat (media_size src) = S" and "0 < S"
    and "w_fds w (fd src) = Some f" and "file_data f = bs"
    and "w_map_ok w" and "no_read_fault (w_sched w)"
    and "length bs mod S \<noteq> 0"
  shows "create_results (replicate (length bs div S + 2) id) src w =
      Some (map (\<lambda>k. (GST_FLOW_OK, Some [\<lparr>mem_size = S, mem_data = take S (drop (k * S) bs)\<rparr>]))
              [0..<length bs div S] @
            [(GST_FLOW_OK, Some [\<lparr>mem_size = S, mem_data = drop (length bs div S * S) bs\<rparr>]),
             (GST_FLOW_EOS, None)]) \<and>
    (\<forall>k<length bs div S. length (take S (drop (k * S) bs)) = S) \<and>
    length (drop (length bs div S * S) bs) = length bs mod S \<and> length bs mod S < S"
proof -
  let ?q = "length bs div S"
  from assms(1) have kind: "fixed_size_kind (media_type src)"
    by (auto simp: fixed_size_kind_def)
  have "map (record_at S bs) [0..<?q + 2] =
      map (record_at S bs) [0..<?q] @ [record_at S bs ?q, record_at S bs (Suc ?q)]"
    by simp
  also have "map (record_at S bs) [0..<?q] =
      map (\<lambda>k. (GST_FLOW_OK, Some [\<lparr>mem_size = S, mem_data = take S (drop (k * S) bs)\<rparr>])) [0..<?q]"
    by (rule map_cong) (simp_all add: record_at_full)
  finally have "map (record_at S bs) [0..<?q + 2] =
      map (\<lambda>k. (GST_FLOW_OK, Some [\<lparr>mem_size = S, mem_data = take S (drop (k * S) bs)\<rparr>])) [0..<?q] @
      [(GST_FLOW_OK, Some [\<lparr>mem_size = S, mem_data = drop (?q * S) bs\<rparr>]), (GST_FLOW_EOS, None)]"
    using record_at_last [OF assms(8,3)] by simp
  with creates_fixed_size [OF kind assms(2-7), of "?q + 2"]
  have "create_results (replicate (?q + 2) id) src w =
      Some (map (\<lambda>k. (GST_FLOW_OK, Some [\<lparr>mem_size = S, mem_data = take S (drop (k * S) bs)\<rparr>])) [0..<?q] @
      [(GST_FLOW_OK, Some [\<lparr>mem_size = S, mem_data = drop (?q * S) bs\<rparr>]), (GST_FLOW_EOS, None)])"
    by simp
  moreover have "\<forall>k<?q. length (take S (drop (k * S) bs)) = S"
    using record_at_full(2) by blast
  moreover have "length bs mod S < S" using assms(3) by simp
  ultimately show ?thesis using record_at_last(2) [OF assms(8,3)] by blast
qed

theorem read_others_returns_partial_record_witness:
  "media_type sample_video_src \<in> {NNS_VIDEO, NNS_AUDIO, NNS_TEXT, NNS_OCTET} \<and>
   unat (media_size sample_video_src) = 4 \<and>
   w_fds sample_video_world_cut (fd sample_video_src) =
     Some (regular_file [1, 2, 3, 4, 5, 6]) \<and>
   w_map_ok sample_video_world_cut \<and>
   no_read_fault (w_sched sample_video_world_cut) \<and>
   length [1, 2, 3, 4, 5, 6 :: byte] mod 4 \<noteq> 0 \<and>
   create_results [id, id, id] sample_video_src sample_video_world_cut =
     Some [(GST_FLOW_OK, Some [\<lparr>mem_size = 4, mem_data = [1, 2, 3, 4]\<rparr>]),
           (GST_FLOW_OK, Some [\<lparr>mem_size = 4, mem_data = [5, 6]\<rparr>]),
           (GST_FLOW_EOS, None)]"
proof -
  have h: "media_type sample_video_src \<in> {NNS_VIDEO, NNS_AUDIO, NNS_TEXT, NNS_OCTET}"
    "unat (media_size sample_video_src) = 4" "0 < (4 :: nat)"
    "w_fds sample_video_world_cut (fd sample_video_src) =
       Some (regular_file [1, 2, 3, 4, 5, 6])"
    "file_data (regular_file [1, 2, 3, 4, 5, 6]) = [1, 2, 3, 4, 5, 6]"
    "w_map_ok sample_video_world_cut"
    "no_read_fault (w_sched sample_video_world_cut)"
    "length [1, 2, 3, 4, 5, 6 :: byte] mod 4 \<noteq> 0"
    by (simp_all add: sample_video_src_def sample_video_world_def sample_video_world_cut_def
          sample_world_def sample_instance_def regular_file_def no_read_fault_def)
  from read_others_returns_partial_record [OF h] h show ?thesis
    by (simp add: upt_rec)
qed

section \<open>Tensor records at the end of the file\<close>

text \<open>
  C2, as the claim states it, fails. Two tensors of four and two bytes, a file of five
  bytes: the first segment is read in full, the second can only be filled with one byte, and
  the call returns \<^verbatim>\<open>GST_FLOW_OK\<close> with a buffer of two blocks, the second partly
  filled. The claim promises end of stream and no buffer.
\<close>

theorem read_tensors_partial_counterexample:
  "(case sample_stream ''mnist.dat'' (tensors_caps [4, 2])
           (with_file ''mnist.dat'' (regular_file [1, 2, 3, 4, 5]) sample_world) of
      None \<Rightarrow> None
    | Some (src, w) \<Rightarrow> returned (gst_data_repo_src_create src w)) =
   Some (GST_FLOW_OK,
         Some [\<lparr>mem_size = 4, mem_data = [1, 2, 3, 4]\<rparr>, \<lparr>mem_size = 2, mem_data = [5]\<rparr>])"
  by (simp add: sample_tensor_stream)
     (simp add: tensor_read_defs)

text \<open>
  C2, amended. For the tensor media type, with both segment sizes positive and no read
  failing for good: when the file has no more bytes than the first segment takes (so the
  second segment finds the end of the file, or the file is empty), the whole record is
  abandoned, the call returns \<^verbatim>\<open>GST_FLOW_EOS\<close> and no buffer; when the file has more
  bytes than the first segment, the call returns \<^verbatim>\<open>GST_FLOW_OK\<close> with both blocks,
  and if the bytes left do not fill the second segment its block holds just the bytes
  there were, fewer than its size.
\<close>

theorem read_tensors_partial_second_segment:
  assumes "media_type src = NNS_TENSOR" and "2 \<le> length (tensors_size src)"
    and "unat (tensors_size src ! 0) = s0" and "unat (tensors_size src ! 1) = s1"
    and "0 < s0" and "0 < s1"
    and "w_fds w (fd src) = Some f" and "file_data f = bs"
    and "w_map_ok w" and "no_read_fault (w_sched w)"
  shows "(length bs \<le> s0 \<longrightarrow>
            returned (gst_data_repo_src_create src w) = Some (GST_FLOW_EOS, None)) \<and>
         (s0 < length bs \<longrightarrow>
            returned (gst_data_repo_src_create src w) =
              Some (GST_FLOW_OK,
                    Some [\<lparr>mem_size = s0, mem_data = take s0 bs\<rparr>,
                          \<lparr>mem_size = s1, mem_data = take s1 (drop s0 bs)\<rparr>])) \<and>
         (s0 < length bs \<and> length bs < s0 + s1 \<longrightarrow>
            length (take s0 bs) = s0 \<and> length (take s1 (drop s0 bs)) = length bs - s0 \<and>
            length bs - s0 < s1)"
proof -
  from read_tensors_quiet [OF assms(2-4,7-10)]
  obtain src' w' where r:
    "gst_data_repo_src_read_tensors src w =
       Some (if (0 < s0 \<and> bs = []) \<or> (0 < s1 \<and> length bs \<le> s0)
             then (GST_FLOW_EOS, None, src', w')
             else (GST_FLOW_OK,
                   Some [\<lparr>mem_size = s0, mem_data = take s0 bs\<rparr>,
                         \<lparr>mem_size = s1, mem_data = take s1 (drop s0 bs)\<rparr>], src', w'))"
    by blast
  have eos: "returned (gst_data_repo_src_create src w) = Some (GST_FLOW_EOS, None)"
    if "length bs \<le> s0"
    using that assms(1,6) r by (simp add: create_tensor returned_def)
  have ok: "returned (gst_data_repo_src_create src w) =
      Some (GST_FLOW_OK,
            Some [\<lparr>mem_size = s0, mem_data = take s0 bs\<rparr>,
                  \<lparr>mem_size = s1, mem_data = take s1 (drop s0 bs)\<rparr>])"
    if "s0 < length bs"
  proof -
    from that have "bs \<noteq> []" "\<not> length bs \<le> s0" by auto
    with assms(1) r show ?thesis by (simp add: create_tensor returned_def)
  qed
  have part: "length (take s0 bs) = s0 \<and> length (take s1 (drop s0 bs)) = length bs - s0 \<and>
      length bs - s0 < s1" if "s0 < length bs \<and> length bs < s0 + s1"
    using that by auto
  from eos ok part show ?thesis by blast
qed

theorem read_tensors_partial_second_segment_witness:
  "media_type sample_tensor_src = NNS_TENSOR \<and>
   2 \<le> length (tensors_size sample_tensor_src) \<and>
   unat (tensors_size sample_tensor_src ! 0) = 4 \<and>
   unat (tensors_size sample_tensor_src ! 1) = 2 \<and>
   w_fds (sample_tensor_world [1, 2, 3, 4, 5]) (fd sample_tensor_src) =
     Some (regular_file [1, 2, 3, 4, 5]) \<and>
   w_map_ok (sample_tensor_world [1, 2, 3, 4, 5]) \<and>
   no_read_fault (w_sched (sample_tensor_world [1, 2, 3, 4, 5])) \<and>
   4 < length [1, 2, 3, 4, 5 :: byte] \<and> length [1, 2, 3, 4, 5 :: byte] < 4 + 2 \<and>
   returned (gst_data_repo_src_create sample_tensor_src (sample_tensor_world [1, 2, 3, 4, 5])) =
     Some (GST_FLOW_OK,
           Some [\<lparr>mem_size = 4, mem_data = [1, 2, 3, 4]\<rparr>, \<lparr>mem_size = 2, mem_data = [5]\<rparr>]) \<and>
   w_fds (sample_tensor_world [1, 2, 3, 4]) (fd sample_tensor_src) =
     Some (regular_file [1, 2, 3, 4]) \<and>
   length [1, 2, 3, 4 :: byte] \<le> 4 \<and>
   returned (gst_data_repo_src_create sample_tensor_src (sample_tensor_world [1, 2, 3, 4])) =
     Some (GST_FLOW_EOS, None)"
proof -
  have pos: "0 < (4 :: nat)" "0 < (2 :: nat)" by simp_all
  note f5 = sample_tensor_facts(5) [of "[1, 2, 3, 4, 5]"] sample_tensor_facts(6)
    sample_tensor_facts(7,8) [of "[1, 2, 3, 4, 5]"]
  note f4 = sample_tensor_facts(5) [of "[1, 2, 3, 4]"] sample_tensor_facts(6)
    sample_tensor_facts(7,8) [of "[1, 2, 3, 4]"]
  note a = read_tensors_partial_second_segment [OF sample_tensor_facts(1-4) pos f5]
  note b = read_tensors_partial_second_segment [OF sample_tensor_facts(1-4) pos f4]
  from a b sample_tensor_facts(1-4) f5 f4
  show ?thesis by simp
qed

section \<open>The stop index of an image sequence\<close>

text \<open>
  C3, as the claim states it, fails. An image element with \<open>stop_frame_index = 2\<close> and
  the files of the indices 0 to 10 present is started; the fourth call of
  \<^verbatim>\<open>create\<close>, made with \<open>frame_index = 3\<close>, returns \<^verbatim>\<open>GST_FLOW_OK\<close> like the
  three before it. The claim promises \<^verbatim>\<open>GST_FLOW_EOS\<close> for the fourth call.
\<close>

theorem read_multi_images_stop_index_counterexample:
  "(case gst_data_repo_src_start (sample_image_src\<lparr>stop_frame_index := 2\<rparr>) sample_image_world of
      (ok, src, w) \<Rightarrow>
        map_option (map fst) (create_results [id, id, id, id] src w)) =
   Some [GST_FLOW_OK, GST_FLOW_OK, GST_FLOW_OK, GST_FLOW_OK]"
  by (simp add: sample_image_start)
     (simp add: image_defs sample_image_src_def sample_image_world_def
        sample_world_def sample_instance_def gst_data_repo_src_init_def regular_file_def
        img_names logged_def Let_def)

text \<open>
  C3, amended. For the image media type \<open>stop_frame_index\<close> has no effect: any run of
  calls returns the same values and buffers whatever \<open>stop_frame_index\<close> is set to, and
  whenever the file of the current \<open>frame_index\<close> can be read the call returns
  \<^verbatim>\<open>GST_FLOW_OK\<close> with its contents. (With the stop index 2 and the files of the indices
  0 to 10 present, eleven calls succeed and the twelfth returns \<^verbatim>\<open>GST_FLOW_EOS\<close>.)
\<close>

theorem stop_frame_index_is_ignored:
  "(media_type src = NNS_IMAGE \<longrightarrow>
      create_results evs (src\<lparr>stop_frame_index := n\<rparr>) w = create_results evs src w) \<and>
   (media_type src = NNS_IMAGE \<and>
    fst (g_file_get_contents w (gst_data_repo_src_get_image_filename src)) = Some data \<longrightarrow>
      returned (gst_data_repo_src_create src w) =
        Some (GST_FLOW_OK, Some [\<lparr>mem_size = length data, mem_data = data\<rparr>]))"
proof (intro conjI impI)
  assume "media_type src = NNS_IMAGE"
  from creates_stop [OF this, of evs n w]
  show "create_results evs (src\<lparr>stop_frame_index := n\<rparr>) w = create_results evs src w"
    by (cases "creates evs src w") (auto simp: create_results_def)
next
  assume a: "media_type src = NNS_IMAGE \<and>
    fst (g_file_get_contents w (gst_data_repo_src_get_image_filename src)) = Some data"
  then have k: "media_type src = NNS_IMAGE" by blast
  from a show "returned (gst_data_repo_src_create src w) =
        Some (GST_FLOW_OK, Some [\<lparr>mem_size = length data, mem_data = data\<rparr>])"
    unfolding create_image [OF k] by (simp add: returned_def read_multi_images_cases)
qed

theorem stop_frame_index_is_ignored_witness:
  "media_type sample_image_src = NNS_IMAGE \<and>
   map_option (map fst)
     (create_results [id, id, id, id, id, id, id, id, id, id, id, id]
        (sample_image_src\<lparr>stop_frame_index := 2\<rparr>) sample_image_world) =
     Some [GST_FLOW_OK, GST_FLOW_OK, GST_FLOW_OK, GST_FLOW_OK, GST_FLOW_OK, GST_FLOW_OK,
           GST_FLOW_OK, GST_FLOW_OK, GST_FLOW_OK, GST_FLOW_OK, GST_FLOW_OK, GST_FLOW_EOS] \<and>
   media_type (sample_image_src\<lparr>frame_index := 3, stop_frame_index := 2\<rparr>) = NNS_IMAGE \<and>
   fst (g_file_get_contents sample_image_world
          (gst_data_repo_src_get_image_filename
             (sample_image_src\<lparr>frame_index := 3, stop_frame_index := 2\<rparr>))) =
     Some [137, 80, 78, 71] \<and>
   returned (gst_data_repo_src_create
               (sample_image_src\<lparr>frame_index := 3, stop_frame_index := 2\<rparr>)
               sample_image_world) =
     Some (GST_FLOW_OK, Some [\<lparr>mem_size = 4, mem_data = [137, 80, 78, 71]\<rparr>])"
proof -
  have k: "media_type sample_image_src = NNS_IMAGE"
    "media_type (sample_image_src\<lparr>frame_index := 3, stop_frame_index := 2\<rparr>) = NNS_IMAGE"
    by (simp_all add: sample_image_src_def)
  have plain: "map_option (map fst)
     (create_results [id, id, id, id, id, id, id, id, id, id, id, id]
        sample_image_src sample_image_world) =
     Some [GST_FLOW_OK, GST_FLOW_OK, GST_FLOW_OK, GST_FLOW_OK, GST_FLOW_OK, GST_FLOW_OK,
           GST_FLOW_OK, GST_FLOW_OK, GST_FLOW_OK, GST_FLOW_OK, GST_FLOW_OK, GST_FLOW_EOS]"
    by (simp add: image_eval)
  have there: "fst (g_file_get_contents sample_image_world
          (gst_data_repo_src_get_image_filename
             (sample_image_src\<lparr>frame_index := 3, stop_frame_index := 2\<rparr>))) =
     Some [137, 80, 78, 71]"
    by (simp add: image_eval)
  from stop_frame_index_is_ignored
    [of sample_image_src "[id, id, id, id, id, id, id, id, id, id, id, id]" 2
        sample_image_world] k(1)
  have a: "create_results [id, id, id, id, id, id, id, id, id, id, id, id]
        (sample_image_src\<lparr>stop_frame_index := 2\<rparr>) sample_image_world =
     create_results [id, id, id, id, id, id, id, id, id, id, id, id]
        sample_image_src sample_image_world"
    by blast
  from stop_frame_index_is_ignored
    [of "sample_image_src\<lparr>frame_index := 3, stop_frame_index := 2\<rparr>" _ _
        sample_image_world "[137, 80, 78, 71]"] k(2) there
  have b: "returned (gst_data_repo_src_create
               (sample_image_src\<lparr>frame_index := 3, stop_frame_index := 2\<rparr>)
               sample_image_world) =
     Some (GST_FLOW_OK, Some [\<lparr>mem_size = length [137, 80, 78, 71 :: byte],
                                mem_data = [137, 80, 78, 71]\<rparr>])"
    by blast
  from k plain there a b show ?thesis by simp
qed

section \<open>The number of blocks of a tensor buffer\<close>




section \<open>Resolving the sizes of the tensors\<close>

text \<open>
  C5, as the claim states it, fails, at three places. Seventeen tensors for an array of
  sixteen entries: there is no test of the number of tensors and no error for it, the
  seventeenth size is stored outside the array. Two tensors of \<open>2 ^ 31\<close> bytes each: the sum
  kept in a \<^verbatim>\<open>guint\<close> is 0 and the resolution fails. Two tensors of sizes 0 and 40: the
  resolution succeeds with a first size that is not positive.
\<close>

theorem tensors_resolution_counterexample:
  "gst_data_repo_src_get_media_info (gst_data_repo_src_init sample_instance)
     (tensors_caps (replicate 17 4)) = None \<and>
   map_option fst (gst_data_repo_src_get_media_info (gst_data_repo_src_init sample_instance)
     (tensors_caps [2147483648, 2147483648])) = Some False \<and>
   map_option (\<lambda>(ok, src'). (ok, take 2 (tensors_size src')))
     (gst_data_repo_src_get_media_info (gst_data_repo_src_init sample_instance)
        (tensors_caps [0, 40])) = Some (True, [0, 40])"
proof (intro conjI)
  show "gst_data_repo_src_get_media_info (gst_data_repo_src_init sample_instance)
     (tensors_caps (replicate 17 4)) = None"
    by (rule get_media_info_tensors_overrun [where szs = "replicate 17 4"])
       (simp_all add: tensors_caps_def gst_data_repo_src_init_def sample_instance_def)
  show "map_option fst (gst_data_repo_src_get_media_info (gst_data_repo_src_init sample_instance)
     (tensors_caps [2147483648, 2147483648])) = Some False"
    by (subst get_media_info_tensors [where szs = "[2147483648, 2147483648]"])
       (simp_all add: tensors_caps_def gst_data_repo_src_init_def sample_instance_def
          media_info_size_def)
  show "map_option (\<lambda>(ok, src'). (ok, take 2 (tensors_size src')))
     (gst_data_repo_src_get_media_info (gst_data_repo_src_init sample_instance)
        (tensors_caps [0, 40])) = Some (True, [0, 40])"
    by (subst get_media_info_tensors [where szs = "[0, 40]"])
       (simp_all add: tensors_caps_def gst_data_repo_src_init_def sample_instance_def
          media_info_size_def)
qed

text \<open>
  C5, amended. For caps \<^verbatim>\<open>other/tensors\<close> that parse into \<open>N\<close> tensors, \<open>N\<close> at most
  \<^verbatim>\<open>MAX_ITEM\<close>: the resolution stores the \<open>N\<close> sizes, each modulo \<open>2 ^ 32\<close>, in order
  in the first \<open>N\<close> entries of \<open>tensors_size\<close> and leaves the other entries alone; the
  media type is tensor; it succeeds exactly when the sum of the sizes modulo \<open>2 ^ 32\<close> is not
  0, and then that sum is the record size. When moreover there is at least one tensor, all
  sizes are positive and their sum is below \<open>2 ^ 32\<close>, it succeeds with \<open>N\<close> positive
  sizes, the declared ones, whose sum is the record size. No error is tied to the number
  of tensors; what happens beyond \<^verbatim>\<open>MAX_ITEM\<close> is left open.
\<close>

theorem tensors_resolution_stores_sizes:
  assumes "caps_name caps = ''other/tensors''" and "caps_tensors caps = Some szs"
    and "length szs \<le> length (tensors_size src)"
  shows "\<exists>ok src'.
     gst_data_repo_src_get_media_info src caps = Some (ok, src') \<and>
     ok = (of_nat (sum_list szs) \<noteq> (0 :: guint)) \<and>
     media_type src' = NNS_TENSOR \<and>
     take (length szs) (tensors_size src') = map of_nat szs \<and>
     drop (length szs) (tensors_size src') = drop (length szs) (tensors_size src) \<and>
     (ok \<longrightarrow> media_size src' = of_nat (sum_list szs)) \<and>
     ((\<forall>s\<in>set szs. 0 < s) \<and> szs \<noteq> [] \<and> sum_list szs < 2 ^ 32 \<longrightarrow>
        ok \<and> map unat (take (length szs) (tensors_size src')) = szs \<and>
        (\<forall>z\<in>set (take (length szs) (tensors_size src')). 0 < unat z) \<and>
        sum_list (map unat (take (length szs) (tensors_size src'))) = unat (media_size src') \<and>
        unat (media_size src') = sum_list szs)"
proof -
  let ?src' = "src\<lparr>tensors_size := map of_nat szs @ drop (length szs) (tensors_size src),
                    media_type := NNS_TENSOR\<rparr>"
  let ?ok = "of_nat (sum_list szs) \<noteq> (0 :: guint)"
  let ?res = "if ?ok then ?src'\<lparr>media_size := of_nat (sum_list szs)\<rparr> else ?src'"
  have res: "gst_data_repo_src_get_media_info src caps = Some (?ok, ?res)"
    using get_media_info_tensors [OF assms] by (simp add: media_info_size_def)
  have ts: "tensors_size ?res = map of_nat szs @ drop (length szs) (tensors_size src)"
    by simp
  have stored: "take (length szs) (tensors_size ?res) = map of_nat szs"
    "drop (length szs) (tensors_size ?res) = drop (length szs) (tensors_size src)"
    unfolding ts by simp_all
  have special: "?ok \<and> map unat (take (length szs) (tensors_size ?res)) = szs \<and>
        (\<forall>z\<in>set (take (length szs) (tensors_size ?res)). 0 < unat z) \<and>
        sum_list (map unat (take (length szs) (tensors_size ?res))) = unat (media_size ?res) \<and>
        unat (media_size ?res) = sum_list szs"
    if pos: "\<forall>s\<in>set szs. 0 < s" and ne: "szs \<noteq> []" and small: "sum_list szs < 2 ^ 32"
  proof -
    from ne obtain s where s: "s \<in> set szs" by (cases szs) auto
    with pos sum_list_bound [OF s] have "0 < sum_list szs" by fastforce
    then have pt: "0 < sum_list szs" .
    have total: "unat (of_nat (sum_list szs) :: guint) = sum_list szs"
      using small by (rule unat_of_nat_32)
    have ok: ?ok
    proof
      assume z: "of_nat (sum_list szs) = (0 :: guint)"
      have u0: "unat (0 :: guint) = 0" by simp
      from z total u0 have "sum_list szs = 0" by metis
      with pt show False by linarith
    qed
    have each: "unat (of_nat s :: guint) = s" if "s \<in> set szs" for s
      using sum_list_bound [OF that] small by (intro unat_of_nat_32) simp
    then have undo: "map unat (map of_nat szs :: guint list) = szs"
      by (simp add: map_idI)
    have "\<forall>z\<in>set (map of_nat szs :: guint list). 0 < unat z"
      using each pos by auto
    with ok total undo show ?thesis unfolding stored by simp
  qed
  show ?thesis
    using res stored special by (intro exI [of _ ?ok] exI [of _ ?res]) auto
qed

theorem tensors_resolution_stores_sizes_witness:
  "caps_name (tensors_caps [3136, 40]) = ''other/tensors'' \<and>
   caps_tensors (tensors_caps [3136, 40]) = Some [3136, 40] \<and>
   length [3136, 40 :: nat] \<le> length (tensors_size (gst_data_repo_src_init sample_instance)) \<and>
   (0 :: nat) < 3136 \<and> (0 :: nat) < 40 \<and> [3136, 40 :: nat] \<noteq> [] \<and>
   sum_list [3136, 40 :: nat] < 2 ^ 32 \<and>
   map_option (\<lambda>(ok, src'). (ok, media_type src', map unat (take 2 (tensors_size src')),
                 unat (media_size src')))
     (gst_data_repo_src_get_media_info (gst_data_repo_src_init sample_instance)
        (tensors_caps [3136, 40])) = Some (True, NNS_TENSOR, [3136, 40], 3176)"
proof -
  have h: "caps_name (tensors_caps [3136, 40]) = ''other/tensors''"
    "caps_tensors (tensors_caps [3136, 40]) = Some [3136, 40]"
    "length [3136, 40 :: nat] \<le> length (tensors_size (gst_data_repo_src_init sample_instance))"
    by (simp_all add: tensors_caps_def gst_data_repo_src_init_def sample_instance_def)
  have g: "(\<forall>s\<in>set [3136, 40 :: nat]. 0 < s) \<and> [3136, 40 :: nat] \<noteq> [] \<and>
    sum_list [3136, 40 :: nat] < 2 ^ 32" by simp
  from tensors_resolution_stores_sizes [OF h]
  obtain ok src' where
    r: "gst_data_repo_src_get_media_info (gst_data_repo_src_init sample_instance)
       (tensors_caps [3136, 40]) = Some (ok, src')"
    and m: "media_type src' = NNS_TENSOR"
    and i: "(\<forall>s\<in>set [3136, 40 :: nat]. 0 < s) \<and> [3136, 40 :: nat] \<noteq> [] \<and>
       sum_list [3136, 40 :: nat] < 2 ^ 32 \<longrightarrow>
        ok \<and> map unat (take (length [3136, 40 :: nat]) (tensors_size src')) = [3136, 40] \<and>
        (\<forall>z\<in>set (take (length [3136, 40 :: nat]) (tensors_size src')). 0 < unat z) \<and>
        sum_list (map unat (take (length [3136, 40 :: nat]) (tensors_size src'))) = unat (media_size src') \<and>
        unat (media_size src') = sum_list [3136, 40]"
    by (elim exE conjE) (rule that, assumption+)
  from i g have c: "ok \<and> map unat (take (length [3136, 40 :: nat]) (tensors_size src')) = [3136, 40] \<and>
        (\<forall>z\<in>set (take (length [3136, 40 :: nat]) (tensors_size src')). 0 < unat z) \<and>
        sum_list (map unat (take (length [3136, 40 :: nat]) (tensors_size src'))) = unat (media_size src') \<and>
        unat (media_size src') = sum_list [3136, 40]"
    by (rule mp)
  from c have s1: "ok" by (elim conjE)
  from c have s2: "map unat (take (length [3136, 40 :: nat]) (tensors_size src')) = [3136, 40]"
    by (elim conjE)
  from c have s3: "unat (media_size src') = sum_list [3136, 40]" by (elim conjE)
  from s2 have t: "map unat (take 2 (tensors_size src')) = [3136, 40]"
    by (simp only: list.size One_nat_def numeral_2_eq_2 add_Suc_right add_0_right)
  from s3 have u: "unat (media_size src') = 3176" by simp
  have last: "map_option (\<lambda>(ok, src'). (ok, media_type src', map unat (take 2 (tensors_size src')),
                 unat (media_size src')))
     (gst_data_repo_src_get_media_info (gst_data_repo_src_init sample_instance)
        (tensors_caps [3136, 40])) = Some (True, NNS_TENSOR, [3136, 40], 3176)"
    unfolding r using s1 m t u by simp
  from h last show ?thesis by simp
qed

section \<open>A missing image file\<close>

text \<open>
  C6, as the claim states it, fails. An image element is started, reads one image, is
  stopped and started again; then the first file disappears. The first call of
  \<^verbatim>\<open>create\<close> in the second session returns \<^verbatim>\<open>GST_FLOW_EOS\<close>. The claim promises
  a failure for a file missing at the very first read attempt of a session.
\<close>

theorem missing_first_image_counterexample:
  "map_option fst
     (run [Op_start, Op_create, Op_stop, Op_start, Op_world (without_file ''img0000.png''),
           Op_create] sample_image_src sample_image_world) =
   Some [GST_FLOW_OK, GST_FLOW_EOS]"
  by (simp add: session_eval)

text \<open>
  C6, amended. For the image media type, after any run of starts, stops, calls of
  \<^verbatim>\<open>create\<close> and changes of the files: when the file of the current \<open>frame_index\<close>
  cannot be read, the call returns \<^verbatim>\<open>GST_FLOW_EOS\<close> if an image was read successfully
  at any time before, in this session or an earlier one of the element (the flag was set
  at the beginning of the run or a call of the run returned \<^verbatim>\<open>GST_FLOW_OK\<close>), and
  \<^verbatim>\<open>GST_FLOW_ERROR\<close> otherwise, that is, only as long as the element never read an
  image.
\<close>

theorem missing_image_after_any_success:
  assumes "media_type src = NNS_IMAGE" and "run ops src w = Some (rets, src', w')"
    and "fst (g_file_get_contents w' (gst_data_repo_src_get_image_filename src')) = None"
  shows "returned (gst_data_repo_src_create src' w') =
     Some (if successful_read src \<or> GST_FLOW_OK \<in> set rets
           then GST_FLOW_EOS else GST_FLOW_ERROR, None)"
proof -
  from run_image [OF assms(1,2)]
  have k: "media_type src' = NNS_IMAGE"
    and s: "successful_read src' = (successful_read src \<or> GST_FLOW_OK \<in> set rets)"
    by simp_all
  from assms(3) s show ?thesis
    unfolding create_image [OF k] by (simp add: returned_def read_multi_images_cases)
qed

theorem missing_image_after_any_success_witness:
  "media_type sample_image_src = NNS_IMAGE \<and> \<not> successful_read sample_image_src \<and>
   (case run [Op_start, Op_create, Op_stop, Op_start, Op_world (without_file ''img0000.png'')]
           sample_image_src sample_image_world of
      None \<Rightarrow> None
    | Some (rets, src', w') \<Rightarrow>
        Some (rets, fst (g_file_get_contents w' (gst_data_repo_src_get_image_filename src')),
              returned (gst_data_repo_src_create src' w'))) =
     Some ([GST_FLOW_OK], None, Some (GST_FLOW_EOS, None)) \<and>
   (case run [Op_start, Op_world (without_file ''img0000.png'')]
           sample_image_src sample_image_world of
      None \<Rightarrow> None
    | Some (rets, src', w') \<Rightarrow>
        Some (rets, fst (g_file_get_contents w' (gst_data_repo_src_get_image_filename src')),
              returned (gst_data_repo_src_create src' w'))) =
     Some ([], None, Some (GST_FLOW_ERROR, None))"
proof -
  have k: "media_type sample_image_src = NNS_IMAGE" "\<not> successful_read sample_image_src"
    by (simp_all add: sample_image_src_def gst_data_repo_src_init_def)
  have "(case run [Op_start, Op_create, Op_stop, Op_start, Op_world (without_file ''img0000.png'')]
           sample_image_src sample_image_world of
      None \<Rightarrow> None
    | Some (rets, src', w') \<Rightarrow>
        Some (rets, fst (g_file_get_contents w' (gst_data_repo_src_get_image_filename src')))) =
     Some ([GST_FLOW_OK], None)"
    by (simp add: session_eval)
  then obtain src1 w1 where
    a: "run [Op_start, Op_create, Op_stop, Op_start, Op_world (without_file ''img0000.png'')]
           sample_image_src sample_image_world = Some ([GST_FLOW_OK], src1, w1)"
    and a': "fst (g_file_get_contents w1 (gst_data_repo_src_get_image_filename src1)) = None"
    by (auto split: option.splits)
  have "(case run [Op_start, Op_world (without_file ''img0000.png'')]
           sample_image_src sample_image_world of
      None \<Rightarrow> None
    | Some (rets, src', w') \<Rightarrow>
        Some (rets, fst (g_file_get_contents w' (gst_data_repo_src_get_image_filename src')))) =
     Some ([], None)"
    by (simp add: session_eval)
  then obtain src2 w2 where
    b: "run [Op_start, Op_world (without_file ''img0000.png'')]
           sample_image_src sample_image_world = Some ([], src2, w2)"
    and b': "fst (g_file_get_contents w2 (gst_data_repo_src_get_image_filename src2)) = None"
    by (auto split: option.splits)
  from missing_image_after_any_success [OF k(1) a a'] k(2)
  have ra: "returned (gst_data_repo_src_create src1 w1) = Some (GST_FLOW_EOS, None)" by simp
  from missing_image_after_any_success [OF k(1) b b'] k(2)
  have rb: "returned (gst_data_repo_src_create src2 w2) = Some (GST_FLOW_ERROR, None)" by simp
  show ?thesis
    unfolding a b using k a' b' ra rb by simp
qed

section \<open>The frame index\<close>

text \<open>
  C7, as the claim states it, fails. \<open>frame_index\<close> is a \<^verbatim>\<open>gint\<close>. With a location
  that has no conversion every call reads the same file again: after
  \<^verbatim>\<open>gst_data_repo_src_start\<close> and 2147483647 calls that all return \<^verbatim>\<open>GST_FLOW_OK\<close>
  the index stands at 2147483647, and the next call, which returns \<^verbatim>\<open>GST_FLOW_OK\<close> as
  well, takes it to -2147483648.
\<close>

theorem frame_index_overflow_counterexample:
  "(case gst_data_repo_src_start still_image_src still_image_world of
      (ok, src0, w0) \<Rightarrow>
        (case creates (replicate 2147483647 id) src0 w0 of
           None \<Rightarrow> None
         | Some (rets, src, w) \<Rightarrow>
             map_option
               (\<lambda>(ret, buf, src', w').
                  (ok, map fst rets = replicate 2147483647 GST_FLOW_OK,
                   sint (frame_index src0), sint (frame_index src), ret,
                   sint (frame_index src')))
               (gst_data_repo_src_create src w))) =
   Some (True, True, 0, 2147483647, GST_FLOW_OK, - 2147483648)"
proof -
  let ?w0 = "still_image_world\<lparr>w_fds := (w_fds still_image_world)(3 := None),
        w_log := [Call_open (Some ''frame.png''), Call_fstat 3, Call_close 3]\<rparr>"
  have files: "w_files ?w0 ''frame.png'' = Inr (regular_file [137, 80, 78, 71])"
    using still_image_facts(4) by simp
  from still_image_run [OF still_image_facts(1,2) files, of 2147483647]
  obtain rets src w where
    run: "creates (replicate 2147483647 id) still_image_src ?w0 = Some (rets, src, w)"
    and r: "map fst rets = replicate 2147483647 GST_FLOW_OK"
      "frame_index src = frame_index still_image_src + of_nat 2147483647"
      "media_type src = NNS_IMAGE" "filename src = Some ''frame.png''"
      "w_files w ''frame.png'' = Inr (regular_file [137, 80, 78, 71])"
    by (elim exE conjE) (rule that, assumption+)
  from r(2) have idx: "frame_index src = 2147483647"
    by (simp add: still_image_facts(3))
  from still_image_read [OF r(3,4,5)] obtain w' where
    one: "gst_data_repo_src_create src w =
      Some (GST_FLOW_OK, Some [\<lparr>mem_size = length [137, 80, 78, 71 :: byte],
                               mem_data = [137, 80, 78, 71]\<rparr>],
            src\<lparr>successful_read := True, frame_index := frame_index src + 1\<rparr>, w')"
    by (auto simp: create_image [OF r(3)])
  show ?thesis
    unfolding still_image_start prod.case run option.case one option.map
    by (simp add: r(1) idx still_image_facts(3))
qed

text \<open>
  C7, amended. For the image media type a call of \<^verbatim>\<open>create\<close> that returns
  \<^verbatim>\<open>GST_FLOW_OK\<close> adds 1 to \<open>frame_index\<close> in 32-bit arithmetic and any other call
  leaves it alone. As long as the index does not pass 2147483647 it grows by exactly 1 with
  each successful call: over any run of calls, whatever happens to the files in between,
  whose successful calls do not take the index beyond 2147483647, \<open>frame_index\<close> grows by
  the number of successful calls and never goes down.
\<close>

theorem frame_index_counts_successes:
  "(media_type src = NNS_IMAGE \<and> gst_data_repo_src_create src w = Some (ret, buf, src1, w1) \<longrightarrow>
      frame_index src1 = frame_index src + (if ret = GST_FLOW_OK then 1 else 0) \<and>
      (sint (frame_index src) < 2147483647 \<longrightarrow>
         sint (frame_index src1) = sint (frame_index src) + (if ret = GST_FLOW_OK then 1 else 0))) \<and>
   (media_type src = NNS_IMAGE \<and> creates evs src w = Some (rets, src', w') \<and>
    sint (frame_index src) + int (length (filter (\<lambda>r. fst r = GST_FLOW_OK) rets))
      \<le> 2147483647 \<longrightarrow>
      sint (frame_index src') =
        sint (frame_index src) + int (length (filter (\<lambda>r. fst r = GST_FLOW_OK) rets)) \<and>
      sint (frame_index src) \<le> sint (frame_index src'))"
proof (intro conjI impI)
  assume "media_type src = NNS_IMAGE \<and> gst_data_repo_src_create src w = Some (ret, buf, src1, w1)"
  then have k: "media_type src = NNS_IMAGE"
    and c: "gst_data_repo_src_create src w = Some (ret, buf, src1, w1)"
    by blast+
  from c have "gst_data_repo_src_read_multi_images src w = (ret, buf, src1, w1)"
    unfolding create_image [OF k] by simp
  then show one: "frame_index src1 = frame_index src + (if ret = GST_FLOW_OK then 1 else 0)"
    by (rule read_multi_images_fields(3))
  assume "sint (frame_index src) < 2147483647"
  then show "sint (frame_index src1) =
      sint (frame_index src) + (if ret = GST_FLOW_OK then 1 else 0)"
    using sint_add_nat [of "frame_index src" "if ret = GST_FLOW_OK then 1 else 0"] one
    by (simp split: if_splits)
next
  assume a: "media_type src = NNS_IMAGE \<and> creates evs src w = Some (rets, src', w') \<and>
    sint (frame_index src) + int (length (filter (\<lambda>r. fst r = GST_FLOW_OK) rets))
      \<le> 2147483647"
  then have "frame_index src' =
      frame_index src + of_nat (length (filter (\<lambda>r. fst r = GST_FLOW_OK) rets))"
    using creates_frame_index by blast
  with a show "sint (frame_index src') =
      sint (frame_index src) + int (length (filter (\<lambda>r. fst r = GST_FLOW_OK) rets))"
    using sint_add_nat by simp
  then show "sint (frame_index src) \<le> sint (frame_index src')" by simp
qed

theorem frame_index_counts_successes_witness:
  "media_type sample_image_src = NNS_IMAGE \<and> sint (frame_index sample_image_src) = 0 \<and>
   map_option (\<lambda>(rets, src', w'). (map fst rets, sint (frame_index src')))
     (creates [id, id, without_file ''img0002.png'', id] sample_image_src sample_image_world) =
     Some ([GST_FLOW_OK, GST_FLOW_OK, GST_FLOW_EOS, GST_FLOW_EOS], 2) \<and>
   map_option (\<lambda>(ret, buf, src', w'). (ret, frame_index src', sint (frame_index src')))
     (gst_data_repo_src_create sample_image_src sample_image_world) = Some (GST_FLOW_OK, 1, 1)"
proof -
  have k: "media_type sample_image_src = NNS_IMAGE" "frame_index sample_image_src = 0"
    by (simp_all add: sample_image_src_def gst_data_repo_src_init_def sample_instance_def)
  have "map_option (\<lambda>(rets, src', w'). map fst rets)
     (creates [id, id, without_file ''img0002.png'', id] sample_image_src sample_image_world) =
     Some [GST_FLOW_OK, GST_FLOW_OK, GST_FLOW_EOS, GST_FLOW_EOS]"
    by (simp add: image_eval)
  then obtain rets src' w' where
    run: "creates [id, id, without_file ''img0002.png'', id] sample_image_src sample_image_world =
      Some (rets, src', w')"
    and rets: "map fst rets = [GST_FLOW_OK, GST_FLOW_OK, GST_FLOW_EOS, GST_FLOW_EOS]"
    by auto
  have "map_option (\<lambda>(ret, buf, src', w'). ret)
     (gst_data_repo_src_create sample_image_src sample_image_world) = Some GST_FLOW_OK"
    by (simp add: image_eval)
  then obtain buf src1 w1 where
    one: "gst_data_repo_src_create sample_image_src sample_image_world =
      Some (GST_FLOW_OK, buf, src1, w1)"
    by auto
  have n: "length (filter (\<lambda>r. fst r = GST_FLOW_OK) rets) = 2"
    using rets by (simp add: count_ok)
  from frame_index_counts_successes
    [of sample_image_src sample_image_world GST_FLOW_OK buf src1 w1
        "[id, id, without_file ''img0002.png'', id]" rets src' w'] k run one n
  have "frame_index src1 = 1" "sint (frame_index src1) = 1" "sint (frame_index src') = 2"
    by simp_all
  with k run one rets show ?thesis by simp
qed

section \<open>Starting without a usable file\<close>



section \<open>The flag of the first successful image\<close>

text \<open>
  C10. \<open>successful_read\<close> is false after \<^verbatim>\<open>gst_data_repo_src_init\<close>, true after a
  call that read an image, and neither \<^verbatim>\<open>gst_data_repo_src_start\<close> nor
  \<^verbatim>\<open>gst_data_repo_src_stop\<close> changes it. So when an image element that has read an
  image is stopped and started again, whatever the worlds at these calls, and the file of
  its first frame cannot be read, the call returns \<^verbatim>\<open>GST_FLOW_EOS\<close> and not
  \<^verbatim>\<open>GST_FLOW_ERROR\<close>, although no image was read in the new session.
\<close>

theorem successful_read_survives_restart:
  "\<not> successful_read (gst_data_repo_src_init src0) \<and>
   (media_type src = NNS_IMAGE \<and>
    gst_data_repo_src_create src w = Some (GST_FLOW_OK, buf, src1, w1) \<longrightarrow>
      successful_read src1) \<and>
   successful_read (fst (snd (gst_data_repo_src_start src w))) = successful_read src \<and>
   successful_read (fst (snd (gst_data_repo_src_stop src w))) = successful_read src \<and>
   (media_type src = NNS_IMAGE \<and> successful_read src \<and>
    fst (g_file_get_contents w4
           (gst_data_repo_src_get_image_filename
              (fst (snd (gst_data_repo_src_start
                           (fst (snd (gst_data_repo_src_stop src w2))) w3))))) = None \<longrightarrow>
      returned (gst_data_repo_src_create
                  (fst (snd (gst_data_repo_src_start
                               (fst (snd (gst_data_repo_src_stop src w2))) w3))) w4) =
        Some (GST_FLOW_EOS, None))"
proof (intro conjI impI)
  show "\<not> successful_read (gst_data_repo_src_init src0)"
    by (simp add: gst_data_repo_src_init_def)
next
  assume "media_type src = NNS_IMAGE \<and>
    gst_data_repo_src_create src w = Some (GST_FLOW_OK, buf, src1, w1)"
  then have k: "media_type src = NNS_IMAGE"
    and c: "gst_data_repo_src_create src w = Some (GST_FLOW_OK, buf, src1, w1)"
    by blast+
  from c have "gst_data_repo_src_read_multi_images src w = (GST_FLOW_OK, buf, src1, w1)"
    unfolding create_image [OF k] by simp
  from read_multi_images_fields(2) [OF this] show "successful_read src1" by simp
next
  show "successful_read (fst (snd (gst_data_repo_src_start src w))) = successful_read src"
    using start_fields(2) [of src w] by (cases "gst_data_repo_src_start src w") auto
next
  show "successful_read (fst (snd (gst_data_repo_src_stop src w))) = successful_read src"
    by (simp add: gst_data_repo_src_stop_def)
next
  let ?stopped = "fst (snd (gst_data_repo_src_stop src w2))"
  let ?again = "fst (snd (gst_data_repo_src_start ?stopped w3))"
  assume a: "media_type src = NNS_IMAGE \<and> successful_read src \<and>
    fst (g_file_get_contents w4 (gst_data_repo_src_get_image_filename ?again)) = None"
  have stopped: "media_type ?stopped = media_type src"
    "successful_read ?stopped = successful_read src"
    by (simp_all add: gst_data_repo_src_stop_def)
  have again: "media_type ?again = media_type ?stopped"
    "successful_read ?again = successful_read ?stopped"
    using start_fields(1,2) [of ?stopped w3]
    by (cases "gst_data_repo_src_start ?stopped w3"; auto)+
  from a stopped again have k: "media_type ?again = NNS_IMAGE" and s: "successful_read ?again"
    by simp_all
  from a s show "returned (gst_data_repo_src_create ?again w4) = Some (GST_FLOW_EOS, None)"
    unfolding create_image [OF k] by (simp add: returned_def read_multi_images_cases)
qed

theorem successful_read_survives_restart_witness:
  "\<not> successful_read (gst_data_repo_src_init sample_instance) \<and>
   media_type sample_image_src = NNS_IMAGE \<and> \<not> successful_read sample_image_src \<and>
   gst_data_repo_src_create sample_image_src sample_image_world =
     Some (GST_FLOW_OK, Some [\<lparr>mem_size = 4, mem_data = [137, 80, 78, 71]\<rparr>],
           sample_image_src\<lparr>successful_read := True, frame_index := 1\<rparr>,
           sample_image_world\<lparr>w_log := [Call_get_contents (Some ''img0000.png'')]\<rparr>) \<and>
   successful_read (sample_image_src\<lparr>successful_read := True, frame_index := 1\<rparr>) \<and>
   fst (g_file_get_contents (without_file ''img0000.png'' sample_image_world)
          (gst_data_repo_src_get_image_filename
             (fst (snd (gst_data_repo_src_start
                (fst (snd (gst_data_repo_src_stop
                   (sample_image_src\<lparr>successful_read := True, frame_index := 1\<rparr>)
                   sample_image_world))) sample_image_world))))) = None \<and>
   returned (gst_data_repo_src_create
     (fst (snd (gst_data_repo_src_start
        (fst (snd (gst_data_repo_src_stop
           (sample_image_src\<lparr>successful_read := True, frame_index := 1\<rparr>)
           sample_image_world))) sample_image_world)))
     (without_file ''img0000.png'' sample_image_world)) = Some (GST_FLOW_EOS, None)"
proof -
  let ?read = "sample_image_src\<lparr>successful_read := True, frame_index := 1\<rparr>"
  have k: "media_type sample_image_src = NNS_IMAGE" "\<not> successful_read sample_image_src"
    "media_type ?read = NNS_IMAGE" "successful_read ?read"
    by (simp_all add: sample_image_src_def gst_data_repo_src_init_def)
  have one: "gst_data_repo_src_create sample_image_src sample_image_world =
     Some (GST_FLOW_OK, Some [\<lparr>mem_size = 4, mem_data = [137, 80, 78, 71]\<rparr>], ?read,
           sample_image_world\<lparr>w_log := [Call_get_contents (Some ''img0000.png'')]\<rparr>)"
    by (simp add: image_eval)
  have gone: "fst (g_file_get_contents (without_file ''img0000.png'' sample_image_world)
          (gst_data_repo_src_get_image_filename
             (fst (snd (gst_data_repo_src_start
                (fst (snd (gst_data_repo_src_stop ?read sample_image_world)))
                sample_image_world))))) = None"
    by (simp add: session_eval)
  note t1 = successful_read_survives_restart
    [of sample_instance sample_image_src sample_image_world
        "Some [\<lparr>mem_size = 4, mem_data = [137, 80, 78, 71]\<rparr>]" ?read
        "sample_image_world\<lparr>w_log := [Call_get_contents (Some ''img0000.png'')]\<rparr>"]
  note t2 = successful_read_survives_restart
    [of _ ?read _ _ _ _ "without_file ''img0000.png'' sample_image_world"
        sample_image_world sample_image_world]
  from t1 have a: "\<not> successful_read (gst_data_repo_src_init sample_instance)" by blast
  from t1 k(1) one have b: "successful_read ?read" by blast
  from t2 k(3,4) gone
  have c: "returned (gst_data_repo_src_create
     (fst (snd (gst_data_repo_src_start
        (fst (snd (gst_data_repo_src_stop ?read sample_image_world))) sample_image_world)))
     (without_file ''img0000.png'' sample_image_world)) = Some (GST_FLOW_EOS, None)"
    by blast
  from a b c k one gone show ?thesis by blast
qed

end
